theory Spec2Isabelle
  imports Complex_Main "HOL-Library.AList"
begin

section \<open>Strings and the field normalisers of etl\_pipeline.py\<close>

text \<open>
  A Python \<open>str\<close> is modelled as a \<open>string\<close>: a list of 8-bit characters, read as the code
  points below 256. On these code points the regular-expression classes \<open>\s\<close> and \<open>\d\<close> and
  the whitespace of \<open>str.strip()\<close> are the sets below. A cell of a data frame read with
  \<open>dtype=str\<close> is a \<open>string option\<close>, \<open>None\<close> being the missing value (NaN).
\<close>

definition isspace :: "char \<Rightarrow> bool" where
  "isspace c = (c \<in> set [CHR 0x09, CHR 0x0A, CHR 0x0B, CHR 0x0C, CHR 0x0D, CHR 0x1C, CHR 0x1D,
     CHR 0x1E, CHR 0x1F, CHR 0x20, CHR 0x85, CHR 0xA0])"

definition isdigit :: "char \<Rightarrow> bool" where
  "isdigit c = (c \<in> set ''0123456789'')"

text \<open>\<open>s.strip()\<close>\<close>

definition strip :: "string \<Rightarrow> string" where
  "strip s = rev (dropWhile isspace (rev (dropWhile isspace s)))"

text \<open>\<open>re.sub(r"\s+", " ", s)\<close>: every maximal run of whitespace becomes one space.\<close>

function collapse_ws :: "string \<Rightarrow> string" where
  "collapse_ws [] = []"
| "collapse_ws (c # cs) =
     (if isspace c then CHR 0x20 # collapse_ws (dropWhile isspace cs) else c # collapse_ws cs)"
  by pat_completeness auto
termination
  by (relation "measure length") (auto simp: le_imp_less_Suc length_dropWhile_le)

definition normalize_spaces :: "string option \<Rightarrow> string" where
  "normalize_spaces s = (case s of None \<Rightarrow> [] | Some t \<Rightarrow> strip (collapse_ws t))"

text \<open>\<open>s.startswith(p)\<close> and the slice \<open>digits[-10:]\<close> (the whole string when it is shorter).\<close>

definition startswith :: "string \<Rightarrow> string \<Rightarrow> bool" where
  "startswith s p = (take (length p) s = p)"

definition last10 :: "string \<Rightarrow> string" where
  "last10 d = drop (length d - 10) d"

definition normalize_phone :: "string option \<Rightarrow> string option" where
  "normalize_phone phone =
     (case phone of
        None \<Rightarrow> None
      | Some p \<Rightarrow>
          if strip p = [] then None
          else
            let digits = filter isdigit p;
                digits = (if length digits = 12 \<and> startswith digits ''91'' then last10 digits
                          else if length digits = 11 \<and> startswith digits ''0'' then last10 digits
                          else if length digits > 10 then last10 digits
                          else digits)
            in if length digits \<noteq> 10 then None else Some (''+91-'' @ digits))"

text \<open>
  The normaliser in the words of the specification: extract the digits; strip the prefix
  "91" of 12 digits; strip the leading "0" of 11 digits; keep the last 10 of more than 10;
  null unless exactly 10 remain; otherwise "+91-" and the digits.
\<close>

definition normalizePhone_spec :: "string \<Rightarrow> string option" where
  "normalizePhone_spec s =
     (let d0 = filter isdigit s;
          d1 = (if length d0 = 12 \<and> take 2 d0 = ''91'' then drop 2 d0 else d0);
          d2 = (if length d1 = 11 \<and> take 1 d1 = ''0'' then drop 1 d1 else d1);
          d3 = (if length d2 > 10 then drop (length d2 - 10) d2 else d2)
      in if length d3 = 10 then Some (''+91-'' @ d3) else None)"

section \<open>The library interface\<close>

text \<open>
  The pipeline calls pandas, the \<open>decimal\<close> module and built-in string functions. They are
  not code of this repository, so the model takes them as a record of functions and every
  theorem about the pipeline holds for all of them. \<open>'f\<close> is the type of the numeric values
  of a data-frame column (float64, without NaN: a missing value is \<open>None\<close>). A library call
  that raises is \<open>None\<close>.
\<close>

datatype date = Date (year: int) (month: int) (day: int)

record 'f lib =
  lower :: "string \<Rightarrow> string"  \<comment> \<open>\<open>s.lower()\<close>\<close>
  title :: "string \<Rightarrow> string"  \<comment> \<open>\<open>s.title()\<close>\<close>
  int_of_str :: "string \<Rightarrow> int option"  \<comment> \<open>\<open>int(s)\<close>\<close>
  to_datetime_ymd :: "string \<Rightarrow> date option"
    \<comment> \<open>\<open>pd.to_datetime(s, format="%Y-%m-%d").date()\<close>\<close>
  to_datetime :: "bool \<Rightarrow> string \<Rightarrow> date option"
    \<comment> \<open>\<open>pd.to_datetime(s, dayfirst=b).date()\<close>; \<open>dayfirst\<close> is \<open>False\<close> when not given\<close>
  to_numeric :: "string \<Rightarrow> 'f option"
    \<comment> \<open>an element of \<open>pd.to_numeric(col, errors="coerce")\<close>\<close>
  median :: "'f list \<Rightarrow> 'f"  \<comment> \<open>the median of a group's values that are not NaN\<close>
  decimal_str :: "'f \<Rightarrow> rat option"
    \<comment> \<open>the value of \<open>Decimal(str(x))\<close>; \<open>None\<close> when it is not finite\<close>
  astype_int :: "'f \<Rightarrow> int option"  \<comment> \<open>an element of \<open>col.astype(int)\<close>\<close>

section \<open>Dates of uncertain format\<close>

text \<open>\<open>s.split(d)\<close> for a separator of one character.\<close>

fun split :: "char \<Rightarrow> string \<Rightarrow> string list" where
  "split d [] = [[]]"
| "split d (c # cs) =
     (if c = d then [] # split d cs
      else (case split d cs of [] \<Rightarrow> [[c]] | p # ps \<Rightarrow> (c # p) # ps))"

text \<open>\<open>re.match(r"^\d{4}-\d{2}-\d{2}$", s)\<close>, on a string without a line break.\<close>

definition matches_ymd :: "string \<Rightarrow> bool" where
  "matches_ymd s =
     (length s = 10 \<and> list_all isdigit (take 4 s) \<and> s ! 4 = CHR ''-'' \<and>
      list_all isdigit (take 2 (drop 5 s)) \<and> s ! 7 = CHR ''-'' \<and> list_all isdigit (drop 8 s))"

text \<open>The flag \<open>dayfirst\<close> that the rule of \<open>parse_flex_date\<close> computes from the two first parts.\<close>

definition dayfirst_rule :: "int \<Rightarrow> int \<Rightarrow> bool" where
  "dayfirst_rule ai bi = (if bi > 12 then False else if ai > 12 then True else False)"

text \<open>\<open>delim = "/" if "/" in s else ("-" if "-" in s else None)\<close>\<close>

definition delim_of :: "string \<Rightarrow> char option" where
  "delim_of s =
     (if CHR ''/'' \<in> set s then Some CHR ''/'' else if CHR ''-'' \<in> set s then Some CHR ''-''
      else None)"

definition parse_flex_date :: "'f lib \<Rightarrow> string option \<Rightarrow> date option" where
  "parse_flex_date L so =
     (case so of
        None \<Rightarrow> None
      | Some s0 \<Rightarrow>
          if strip s0 = [] then None
          else
            let s = normalize_spaces (Some s0) in
            if matches_ymd s then to_datetime_ymd L s
            else
              (case delim_of s of
                 None \<Rightarrow> to_datetime L False s
               | Some delim \<Rightarrow>
                   let parts = split delim s in
                   if length parts \<noteq> 3 then to_datetime L False s
                   else
                     let a = parts ! 0; b = parts ! 1 in
                     if length a = 4 then
                       (case to_datetime_ymd L s of
                          Some d \<Rightarrow> Some d
                        | None \<Rightarrow> to_datetime L False s)
                     else
                       (case int_of_str L a of
                          None \<Rightarrow> to_datetime L False s
                        | Some ai \<Rightarrow>
                            (case int_of_str L b of
                               None \<Rightarrow> to_datetime L False s
                             | Some bi \<Rightarrow> to_datetime L (dayfirst_rule ai bi) s))))"

section \<open>A reference instance of the library interface\<close>

text \<open>
  \<open>ref_lib\<close> is an instance of the interface used to run the pipeline on concrete inputs.
  It gives what the libraries give on the inputs it is evaluated on below: plain decimal
  literals, dates of three numeric parts with a year of four digits, a year and a month
  in ISO form, and strings of letters, which no parse accepts. It stands for nothing
  else: on other strings it returns \<open>None\<close> where the libraries may return a value (pandas
  reads "1/2/3/2024" and "24-03-05" as dates), so no statement below evaluates it there.
  Numeric values are rationals.
\<close>

definition digits_val :: "string \<Rightarrow> nat" where
  "digits_val ds = foldl (\<lambda>n c. 10 * n + (of_char c - 48)) 0 ds"

definition ref_nat :: "string \<Rightarrow> nat option" where
  "ref_nat ds = (if ds \<noteq> [] \<and> list_all isdigit ds then Some (digits_val ds) else None)"

definition ref_int :: "string \<Rightarrow> int option" where
  "ref_int s =
     (let t = strip s;
          neg = (take 1 t = ''-'');
          ds = (if take 1 t = ''-'' \<or> take 1 t = ''+'' then drop 1 t else t)
      in map_option (\<lambda>n. if neg then - int n else int n) (ref_nat ds))"

definition days_in_month :: "int \<Rightarrow> int \<Rightarrow> int" where
  "days_in_month y m =
     (if m = 2 then (if y mod 4 = 0 \<and> (y mod 100 \<noteq> 0 \<or> y mod 400 = 0) then 29 else 28)
      else if m \<in> {4, 6, 9, 11} then 30 else 31)"

definition mk_date :: "int \<Rightarrow> int \<Rightarrow> int \<Rightarrow> date option" where
  "mk_date y m d =
     (if 1 \<le> y \<and> 1 \<le> m \<and> m \<le> 12 \<and> 1 \<le> d \<and> d \<le> days_in_month y m then Some (Date y m d)
      else None)"

definition ref_to_datetime_ymd :: "string \<Rightarrow> date option" where
  "ref_to_datetime_ymd s =
     (case map ref_nat (split CHR ''-'' s) of
        [Some y, Some m, Some d] \<Rightarrow>
          if length (hd (split CHR ''-'' s)) = 4 then mk_date (int y) (int m) (int d) else None
      | _ \<Rightarrow> None)"

definition ref_to_datetime :: "bool \<Rightarrow> string \<Rightarrow> date option" where
  "ref_to_datetime dayfirst s =
     (case delim_of s of
        None \<Rightarrow> None
      | Some delim \<Rightarrow>
          let parts = split delim s in
          case map ref_nat parts of
            [Some y, Some m] \<Rightarrow>
              if delim = CHR ''-'' \<and> length (parts ! 0) = 4 \<and> length (parts ! 1) = 2
              then mk_date (int y) (int m) 1 else None
          | [Some p, Some q, Some r] \<Rightarrow>
              if length (parts ! 0) = 4 then mk_date (int p) (int q) (int r)
              else if length (parts ! 2) \<noteq> 4 then None
              else
                let m = (if dayfirst then q else p); d = (if dayfirst then p else q) in
                if m > 12 then mk_date (int r) (int d) (int m) else mk_date (int r) (int m) (int d)
          | _ \<Rightarrow> None)"

definition ref_lower :: "string \<Rightarrow> string" where
  "ref_lower s =
     map (\<lambda>c. case map_of (zip ''ABCDEFGHIJKLMNOPQRSTUVWXYZ'' ''abcdefghijklmnopqrstuvwxyz'') c of
                 None \<Rightarrow> c | Some l \<Rightarrow> l) s"

definition ref_upper_char :: "char \<Rightarrow> char" where
  "ref_upper_char c =
     (case map_of (zip ''abcdefghijklmnopqrstuvwxyz'' ''ABCDEFGHIJKLMNOPQRSTUVWXYZ'') c of
        None \<Rightarrow> c | Some u \<Rightarrow> u)"

definition isalpha :: "char \<Rightarrow> bool" where
  "isalpha c = (c \<in> set ''abcdefghijklmnopqrstuvwxyzABCDEFGHIJKLMNOPQRSTUVWXYZ'')"

fun title_from :: "bool \<Rightarrow> string \<Rightarrow> string" where
  "title_from inword [] = []"
| "title_from inword (c # cs) =
     (if isalpha c then (if inword then hd (ref_lower [c]) else ref_upper_char c) # title_from True cs
      else c # title_from False cs)"

definition ref_to_numeric :: "string \<Rightarrow> rat option" where
  "ref_to_numeric s =
     (let t = strip s;
          neg = (take 1 t = ''-'');
          sg = (if neg then - 1 else 1);
          u = (if neg then drop 1 t else t)
      in case split CHR ''.'' u of
           [i] \<Rightarrow> map_option (\<lambda>n. sg * of_nat n) (ref_nat i)
         | [i, f] \<Rightarrow>
             (case ref_nat i of
                None \<Rightarrow> None
              | Some a \<Rightarrow>
                  (case ref_nat f of
                     None \<Rightarrow> None
                   | Some b \<Rightarrow> Some (sg * (of_nat a + of_nat b / 10 ^ length f))))
         | _ \<Rightarrow> None)"

definition ref_median :: "rat list \<Rightarrow> rat" where
  "ref_median xs =
     (let ys = sort xs; n = length ys in
      if n = 0 then 0
      else if odd n then ys ! (n div 2)
      else (ys ! (n div 2 - 1) + ys ! (n div 2)) / 2)"

definition ref_astype_int :: "rat \<Rightarrow> int option" where
  "ref_astype_int x = Some (if 0 \<le> x then \<lfloor>x\<rfloor> else \<lceil>x\<rceil>)"

definition ref_lib :: "rat lib" where
  "ref_lib =
     \<lparr>lower = ref_lower, title = title_from False, int_of_str = ref_int,
      to_datetime_ymd = ref_to_datetime_ymd, to_datetime = ref_to_datetime,
      to_numeric = ref_to_numeric, median = ref_median, decimal_str = Some,
      astype_int = ref_astype_int\<rparr>"

section \<open>Deduplication\<close>

text \<open>
  \<open>df.drop_duplicates(subset=[key], keep="first")\<close>: the rows are scanned in order and a row
  is kept when its key has not been seen before.
\<close>

fun drop_dups_from :: "'k list \<Rightarrow> ('a \<Rightarrow> 'k) \<Rightarrow> 'a list \<Rightarrow> 'a list" where
  "drop_dups_from seen key [] = []"
| "drop_dups_from seen key (x # xs) =
     (if key x \<in> set seen then drop_dups_from seen key xs
      else x # drop_dups_from (key x # seen) key xs)"

definition drop_duplicates :: "('a \<Rightarrow> 'k) \<Rightarrow> 'a list \<Rightarrow> 'a list" where
  "drop_duplicates key xs = drop_dups_from [] key xs"

section \<open>Fixed-point amounts\<close>

text \<open>
  A \<open>Decimal\<close> is modelled by the rational it denotes. \<open>quantize(Decimal("0.01"),
  rounding=ROUND_HALF_UP)\<close> rounds to two fractional digits, ties away from zero, and raises
  \<open>InvalidOperation\<close> when the result needs more than the 28 digits of the default context.
\<close>

definition round_half_up :: "rat \<Rightarrow> int" where
  "round_half_up x = (if 0 \<le> x then \<lfloor>x + 1 / 2\<rfloor> else - \<lfloor>- x + 1 / 2\<rfloor>)"

definition quantize2 :: "rat \<Rightarrow> rat option" where
  "quantize2 d =
     (let q = of_int (round_half_up (d * 100)) / 100 in
      if \<bar>q\<bar> * 100 < 10 ^ 28 then Some q else None)"

text \<open>
  \<open>to_decimal_2(x)\<close> is \<open>Decimal(str(x)).quantize(...)\<close>. The pipeline calls it on a numeric
  value of a data frame and on a \<open>Decimal\<close>, for which \<open>Decimal(str(x))\<close> is \<open>x\<close>.
\<close>

datatype 'f number = Float 'f | Dec rat

definition to_decimal_2 :: "'f lib \<Rightarrow> 'f number \<Rightarrow> rat option" where
  "to_decimal_2 L x =
     (case x of
        Float f \<Rightarrow> (case decimal_str L f of None \<Rightarrow> None | Some d \<Rightarrow> quantize2 d)
      | Dec d \<Rightarrow> quantize2 d)"

section \<open>The data frames\<close>

text \<open>
  The three frames read from the CSV files, with cells of type \<open>'c\<close>: \<open>string option\<close> as
  read, \<open>string\<close> after \<open>applymap(normalize_spaces)\<close>.
\<close>

record 'c customer_cols =
  cu_customer_id :: 'c
  cu_first_name :: 'c
  cu_last_name :: 'c
  cu_email :: 'c
  cu_phone :: 'c
  cu_city :: 'c
  cu_registration_date :: 'c

record 'c product_cols =
  pr_product_id :: 'c
  pr_product_name :: 'c
  pr_category :: 'c
  pr_price :: 'c
  pr_stock_quantity :: 'c

record 'c sale_cols =
  sa_transaction_id :: 'c
  sa_customer_id :: 'c
  sa_product_id :: 'c
  sa_quantity :: 'c
  sa_unit_price :: 'c
  sa_transaction_date :: 'c
  sa_status :: 'c

text \<open>The columns of the cleaned frames that the load step reads.\<close>

record customer_clean =
  cc_customer_id :: string
  cc_first_name :: string
  cc_last_name :: string
  cc_email :: string
  cc_phone :: "string option"
  cc_city :: string
  cc_registration_date :: "date option"

record 'f product_clean =
  pc_product_id :: string
  pc_product_name :: string
  pc_category :: string
  pc_price_num :: 'f
  pc_stock_num :: int

record 'f sale_clean =
  sc_transaction_id :: string
  sc_customer_id :: string
  sc_product_id :: string
  sc_quantity_num :: int
  sc_unit_price_num :: 'f
  sc_transaction_date_parsed :: date
  sc_status :: string

record report =
  customers_raw :: int
  products_raw :: int
  sales_raw :: int
  customers_dupes_removed :: int
  products_dupes_removed :: int
  sales_dupes_removed :: int
  customers_missing_email_filled :: int
  products_missing_price_imputed :: int
  products_missing_stock_filled :: int
  sales_missing_customer_dropped :: int
  sales_missing_product_dropped :: int
  sales_invalid_date_dropped :: int
  customers_loaded :: int
  products_loaded :: int
  orders_loaded :: int
  order_items_loaded :: int

datatype error = IntCastingError | InvalidOperation | IntegrityError | OperationalError

section \<open>Transform\<close>

definition normalize_city :: "'f lib \<Rightarrow> string option \<Rightarrow> string" where
  "normalize_city L s = (let t = normalize_spaces s in if t \<noteq> [] then title L t else [])"

definition normalize_category :: "'f lib \<Rightarrow> string option \<Rightarrow> string" where
  "normalize_category L s =
     (let t = lower L (normalize_spaces s) in
      case map_of [(''electronics'', ''Electronics''), (''fashion'', ''Fashion''),
                   (''groceries'', ''Groceries'')] t of
        Some v \<Rightarrow> v
      | None \<Rightarrow> (if t \<noteq> [] then title L t else []))"

definition strip_customer :: "string option customer_cols \<Rightarrow> string customer_cols" where
  "strip_customer r =
     \<lparr>cu_customer_id = normalize_spaces (cu_customer_id r),
      cu_first_name = normalize_spaces (cu_first_name r),
      cu_last_name = normalize_spaces (cu_last_name r),
      cu_email = normalize_spaces (cu_email r),
      cu_phone = normalize_spaces (cu_phone r),
      cu_city = normalize_spaces (cu_city r),
      cu_registration_date = normalize_spaces (cu_registration_date r)\<rparr>"

definition strip_product :: "string option product_cols \<Rightarrow> string product_cols" where
  "strip_product r =
     \<lparr>pr_product_id = normalize_spaces (pr_product_id r),
      pr_product_name = normalize_spaces (pr_product_name r),
      pr_category = normalize_spaces (pr_category r),
      pr_price = normalize_spaces (pr_price r),
      pr_stock_quantity = normalize_spaces (pr_stock_quantity r)\<rparr>"

definition strip_sale :: "string option sale_cols \<Rightarrow> string sale_cols" where
  "strip_sale r =
     \<lparr>sa_transaction_id = normalize_spaces (sa_transaction_id r),
      sa_customer_id = normalize_spaces (sa_customer_id r),
      sa_product_id = normalize_spaces (sa_product_id r),
      sa_quantity = normalize_spaces (sa_quantity r),
      sa_unit_price = normalize_spaces (sa_unit_price r),
      sa_transaction_date = normalize_spaces (sa_transaction_date r),
      sa_status = normalize_spaces (sa_status r)\<rparr>"

subsection \<open>Customers\<close>

definition customers_dedup :: "string option customer_cols list \<Rightarrow> string customer_cols list" where
  "customers_dedup raw = drop_duplicates cu_customer_id (map strip_customer raw)"

definition clean_customer :: "'f lib \<Rightarrow> string customer_cols \<Rightarrow> customer_clean" where
  "clean_customer L r =
     \<lparr>cc_customer_id = cu_customer_id r,
      cc_first_name = normalize_spaces (Some (cu_first_name r)),
      cc_last_name = normalize_spaces (Some (cu_last_name r)),
      cc_email =
        lower L (if cu_email r = [] then ''unknown+'' @ lower L (cu_customer_id r) @ ''@fleximart.local''
                 else cu_email r),
      cc_phone = normalize_phone (Some (cu_phone r)),
      cc_city = normalize_city L (Some (cu_city r)),
      cc_registration_date = parse_flex_date L (Some (cu_registration_date r))\<rparr>"

definition clean_customers :: "'f lib \<Rightarrow> string option customer_cols list \<Rightarrow> customer_clean list" where
  "clean_customers L raw = map (clean_customer L) (customers_dedup raw)"

subsection \<open>Products\<close>

definition products_dedup :: "string option product_cols list \<Rightarrow> string product_cols list" where
  "products_dedup raw = drop_duplicates pr_product_id (map strip_product raw)"

definition products_named :: "'f lib \<Rightarrow> string option product_cols list \<Rightarrow> string product_cols list" where
  "products_named L raw =
     map (\<lambda>r. r\<lparr>pr_product_name := normalize_spaces (Some (pr_product_name r)),
                pr_category := normalize_category L (Some (pr_category r))\<rparr>)
       (products_dedup raw)"

text \<open>The values of \<open>price_num\<close> that are not NaN in the rows of one category.\<close>

definition category_prices :: "'f lib \<Rightarrow> string product_cols list \<Rightarrow> string \<Rightarrow> 'f list" where
  "category_prices L ps cat =
     List.map_filter (\<lambda>r. to_numeric L (pr_price r)) (filter (\<lambda>r. pr_category r = cat) ps)"

text \<open>
  \<open>medians.get(cat, None)\<close> followed by \<open>m if pd.notna(m) else None\<close>: the median of a group
  whose values are all NaN is NaN.
\<close>

definition medians :: "'f lib \<Rightarrow> string product_cols list \<Rightarrow> string \<Rightarrow> 'f option" where
  "medians L ps cat =
     (if category_prices L ps cat = [] then None else Some (median L (category_prices L ps cat)))"

definition impute_price :: "'f lib \<Rightarrow> string product_cols list \<Rightarrow> string product_cols \<Rightarrow> 'f option" where
  "impute_price L ps row =
     (case to_numeric L (pr_price row) of
        None \<Rightarrow> medians L ps (pr_category row)
      | Some v \<Rightarrow> Some v)"

text \<open>The frame after \<open>dropna(subset=["price_num"])\<close>, each row with its \<open>price_num\<close>.\<close>

definition products_priced ::
  "'f lib \<Rightarrow> string option product_cols list \<Rightarrow> (string product_cols \<times> 'f) list" where
  "products_priced L raw =
     List.map_filter (\<lambda>r. map_option (Pair r) (impute_price L (products_named L raw) r))
       (products_named L raw)"

text \<open>An element of \<open>pd.to_numeric(col, errors="coerce").fillna(0).astype(int)\<close>.\<close>

definition to_int_or_zero :: "'f lib \<Rightarrow> string \<Rightarrow> int option" where
  "to_int_or_zero L s = (case to_numeric L s of None \<Rightarrow> Some 0 | Some f \<Rightarrow> astype_int L f)"

definition clean_products ::
  "'f lib \<Rightarrow> string option product_cols list \<Rightarrow> 'f product_clean list option" where
  "clean_products L raw =
     those (map (\<lambda>(r, v). map_option
                   (\<lambda>n. \<lparr>pc_product_id = pr_product_id r, pc_product_name = pr_product_name r,
                         pc_category = pr_category r, pc_price_num = v, pc_stock_num = n\<rparr>)
                   (to_int_or_zero L (pr_stock_quantity r)))
              (products_priced L raw))"

subsection \<open>Sales\<close>

definition sales_dedup :: "string option sale_cols list \<Rightarrow> string sale_cols list" where
  "sales_dedup raw = drop_duplicates sa_transaction_id (map strip_sale raw)"

definition sales_with_customer :: "string option sale_cols list \<Rightarrow> string sale_cols list" where
  "sales_with_customer raw = filter (\<lambda>r. sa_customer_id r \<noteq> []) (sales_dedup raw)"

definition sales_with_product :: "string option sale_cols list \<Rightarrow> string sale_cols list" where
  "sales_with_product raw = filter (\<lambda>r. sa_product_id r \<noteq> []) (sales_with_customer raw)"

text \<open>The column \<open>quantity_num\<close>; \<open>None\<close> when \<open>astype(int)\<close> raises.\<close>

definition quantities :: "'f lib \<Rightarrow> string option sale_cols list \<Rightarrow> int list option" where
  "quantities L raw = those (map (\<lambda>r. to_int_or_zero L (sa_quantity r)) (sales_with_product raw))"

definition sales_positive ::
  "string option sale_cols list \<Rightarrow> int list \<Rightarrow> (string sale_cols \<times> int) list" where
  "sales_positive raw qs = filter (\<lambda>(r, q). q > 0) (zip (sales_with_product raw) qs)"

definition sales_priced ::
  "'f lib \<Rightarrow> string option sale_cols list \<Rightarrow> int list \<Rightarrow> (string sale_cols \<times> int \<times> 'f) list" where
  "sales_priced L raw qs =
     List.map_filter (\<lambda>(r, q). map_option (\<lambda>u. (r, q, u)) (to_numeric L (sa_unit_price r)))
       (sales_positive raw qs)"

definition sales_dated ::
  "'f lib \<Rightarrow> string option sale_cols list \<Rightarrow> int list \<Rightarrow> 'f sale_clean list" where
  "sales_dated L raw qs =
     List.map_filter
       (\<lambda>(r, q, u). map_option
          (\<lambda>d. \<lparr>sc_transaction_id = sa_transaction_id r, sc_customer_id = sa_customer_id r,
                sc_product_id = sa_product_id r, sc_quantity_num = q, sc_unit_price_num = u,
                sc_transaction_date_parsed = d, sc_status = sa_status r\<rparr>)
          (parse_flex_date L (Some (sa_transaction_date r))))
       (sales_priced L raw qs)"

text \<open>The two \<open>isin\<close> filters on the natural keys of the cleaned customers and products.\<close>

definition integrity_filter ::
  "string list \<Rightarrow> string list \<Rightarrow> 'f sale_clean list \<Rightarrow> 'f sale_clean list" where
  "integrity_filter valid_customer_ids valid_product_ids ss =
     filter (\<lambda>r. sc_product_id r \<in> set valid_product_ids)
       (filter (\<lambda>r. sc_customer_id r \<in> set valid_customer_ids) ss)"

definition clean_sales ::
  "'f lib \<Rightarrow> customer_clean list \<Rightarrow> 'f product_clean list \<Rightarrow>
   string option sale_cols list \<Rightarrow> int list \<Rightarrow> 'f sale_clean list" where
  "clean_sales L cs ps sraw qs =
     integrity_filter (map cc_customer_id cs) (map pc_product_id ps) (sales_dated L sraw qs)"

text \<open>The report as it stands when the load step begins.\<close>

definition count :: "('a \<Rightarrow> bool) \<Rightarrow> 'a list \<Rightarrow> int" where
  "count P xs = int (length (filter P xs))"

definition transform_report ::
  "'f lib \<Rightarrow> string option customer_cols list \<Rightarrow> string option product_cols list \<Rightarrow>
   string option sale_cols list \<Rightarrow> int list \<Rightarrow> report" where
  "transform_report L craw praw sraw qs =
     \<lparr>customers_raw = int (length craw),
      products_raw = int (length praw),
      sales_raw = int (length sraw),
      customers_dupes_removed = int (length craw) - int (length (customers_dedup craw)),
      products_dupes_removed = int (length praw) - int (length (products_dedup praw)),
      sales_dupes_removed = int (length sraw) - int (length (sales_dedup sraw)),
      customers_missing_email_filled = count (\<lambda>r. cu_email r = []) (customers_dedup craw),
      products_missing_price_imputed =
        count (\<lambda>r. to_numeric L (pr_price r) = None) (products_named L praw),
      products_missing_stock_filled =
        count (\<lambda>(r, v). to_numeric L (pr_stock_quantity r) = None) (products_priced L praw),
      sales_missing_customer_dropped = count (\<lambda>r. sa_customer_id r = []) (sales_dedup sraw),
      sales_missing_product_dropped = count (\<lambda>r. sa_product_id r = []) (sales_with_customer sraw),
      sales_invalid_date_dropped =
        count (\<lambda>(r, q, u). parse_flex_date L (Some (sa_transaction_date r)) = None)
          (sales_priced L sraw qs),
      customers_loaded = 0,
      products_loaded = 0,
      orders_loaded = 0,
      order_items_loaded = 0\<rparr>"

text \<open>
  The transform stage: the three cleaned frames and the report, or the exception of an
  \<open>astype(int)\<close> that raises.
\<close>

definition transform ::
  "'f lib \<Rightarrow> string option customer_cols list \<Rightarrow> string option product_cols list \<Rightarrow>
   string option sale_cols list \<Rightarrow>
   error + (customer_clean list \<times> 'f product_clean list \<times> 'f sale_clean list \<times> report)" where
  "transform L craw praw sraw =
     (case clean_products L praw of
        None \<Rightarrow> Inl IntCastingError
      | Some ps \<Rightarrow>
          (case quantities L sraw of
             None \<Rightarrow> Inl IntCastingError
           | Some qs \<Rightarrow>
               Inr (clean_customers L craw, ps,
                    clean_sales L (clean_customers L craw) ps sraw qs,
                    transform_report L craw praw sraw qs)))"

section \<open>The relational store\<close>

text \<open>
  The four tables of \<open>SCHEMA_SQL\<close>. A connection opened with \<open>autocommit=False\<close> sees the
  rows of its open transaction (\<open>txn\<close>); \<open>durable\<close> are the committed rows, the ones that
  persist. The AUTO\_INCREMENT counters belong to the server.
\<close>

record customers_row =
  c_customer_id :: nat
  c_first_name :: string
  c_last_name :: string
  c_email :: string
  c_phone :: "string option"
  c_city :: string
  c_registration_date :: "date option"

record products_row =
  p_product_id :: nat
  p_product_name :: string
  p_category :: string
  p_price :: rat
  p_stock_quantity :: int

record orders_row =
  o_order_id :: nat
  o_customer_id :: nat
  o_order_date :: date
  o_total_amount :: rat
  o_status :: string

record order_items_row =
  i_order_item_id :: nat
  i_order_id :: nat
  i_product_id :: nat
  i_quantity :: int
  i_unit_price :: rat
  i_subtotal :: rat

record tables =
  customers :: "customers_row list"
  products :: "products_row list"
  orders :: "orders_row list"
  order_items :: "order_items_row list"

definition empty_tables :: tables where
  "empty_tables = \<lparr>customers = [], products = [], orders = [], order_items = []\<rparr>"

record server =
  durable :: tables
  next_customer_id :: nat
  next_product_id :: nat
  next_order_id :: nat
  next_order_item_id :: nat

record conn = server +
  txn :: tables
  lastrowid :: nat
  fk_checks :: bool
  clock :: nat

datatype stmt =
    SetForeignKeyChecks bool
  | TruncateOrderItems
  | TruncateOrders
  | TruncateProducts
  | TruncateCustomers
  | InsertCustomer string string string "string option" string "date option"
  | InsertProduct string string rat int
  | InsertOrder nat date rat string
  | InsertOrderItem nat nat int rat rat
  | Commit

text \<open>\<open>get_conn(cfg, use_db=True)\<close>: a new session on the server's committed state.\<close>

definition get_conn :: "server \<Rightarrow> conn" where
  "get_conn srv = server.extend srv \<lparr>txn = durable srv, lastrowid = 0, fk_checks = True, clock = 0\<rparr>"

text \<open>
  The effect of a statement that the server accepts. \<open>TRUNCATE TABLE\<close> commits implicitly
  and resets the counter of the table. An insert fails on a duplicate email (\<open>UNIQUE\<close>) and,
  with foreign-key checks on, on a reference to a row that does not exist.
\<close>

definition apply_stmt :: "stmt \<Rightarrow> conn \<Rightarrow> (error \<times> conn) + conn" where
  "apply_stmt st c =
     (case st of
        SetForeignKeyChecks b \<Rightarrow> Inr (c\<lparr>fk_checks := b\<rparr>)
      | TruncateOrderItems \<Rightarrow>
          Inr (c\<lparr>durable := (txn c)\<lparr>order_items := []\<rparr>, next_order_item_id := 1,
                 txn := (txn c)\<lparr>order_items := []\<rparr>\<rparr>)
      | TruncateOrders \<Rightarrow>
          Inr (c\<lparr>durable := (txn c)\<lparr>orders := []\<rparr>, next_order_id := 1,
                 txn := (txn c)\<lparr>orders := []\<rparr>\<rparr>)
      | TruncateProducts \<Rightarrow>
          Inr (c\<lparr>durable := (txn c)\<lparr>products := []\<rparr>, next_product_id := 1,
                 txn := (txn c)\<lparr>products := []\<rparr>\<rparr>)
      | TruncateCustomers \<Rightarrow>
          Inr (c\<lparr>durable := (txn c)\<lparr>customers := []\<rparr>, next_customer_id := 1,
                 txn := (txn c)\<lparr>customers := []\<rparr>\<rparr>)
      | InsertCustomer fname lname em ph ci rd \<Rightarrow>
          if em \<in> set (map c_email (customers (txn c))) then Inl (IntegrityError, c)
          else
            Inr (c\<lparr>txn := (txn c)\<lparr>customers := customers (txn c) @
                         [\<lparr>c_customer_id = next_customer_id c, c_first_name = fname,
                           c_last_name = lname, c_email = em, c_phone = ph, c_city = ci,
                           c_registration_date = rd\<rparr>]\<rparr>,
                   lastrowid := next_customer_id c,
                   next_customer_id := Suc (next_customer_id c)\<rparr>)
      | InsertProduct pn ca pri stock \<Rightarrow>
          Inr (c\<lparr>txn := (txn c)\<lparr>products := products (txn c) @
                       [\<lparr>p_product_id = next_product_id c, p_product_name = pn,
                         p_category = ca, p_price = pri, p_stock_quantity = stock\<rparr>]\<rparr>,
                 lastrowid := next_product_id c,
                 next_product_id := Suc (next_product_id c)\<rparr>)
      | InsertOrder cid od tot sta \<Rightarrow>
          if fk_checks c \<and> cid \<notin> set (map c_customer_id (customers (txn c)))
          then Inl (IntegrityError, c)
          else
            Inr (c\<lparr>txn := (txn c)\<lparr>orders := orders (txn c) @
                         [\<lparr>o_order_id = next_order_id c, o_customer_id = cid, o_order_date = od,
                           o_total_amount = tot, o_status = sta\<rparr>]\<rparr>,
                   lastrowid := next_order_id c,
                   next_order_id := Suc (next_order_id c)\<rparr>)
      | InsertOrderItem oid pid q up sub \<Rightarrow>
          if fk_checks c \<and> (oid \<notin> set (map o_order_id (orders (txn c))) \<or>
                            pid \<notin> set (map p_product_id (products (txn c))))
          then Inl (IntegrityError, c)
          else
            Inr (c\<lparr>txn := (txn c)\<lparr>order_items := order_items (txn c) @
                         [\<lparr>i_order_item_id = next_order_item_id c, i_order_id = oid,
                           i_product_id = pid, i_quantity = q, i_unit_price = up,
                           i_subtotal = sub\<rparr>]\<rparr>,
                   lastrowid := next_order_item_id c,
                   next_order_item_id := Suc (next_order_item_id c)\<rparr>)
      | Commit \<Rightarrow> Inr (c\<lparr>durable := txn c\<rparr>))"

text \<open>
  \<open>cur.execute(...)\<close> and \<open>conn.commit()\<close>. The parameter \<open>F\<close> says which statements the server
  refuses for a reason outside the model (connection lost, value out of the column's
  range in strict mode, ...): \<open>F k st\<close> holds when the statement \<open>st\<close>, sent as the \<open>k\<close>-th of
  the session, raises. An accepted statement stores the values it is sent.
\<close>

definition execute :: "(nat \<Rightarrow> stmt \<Rightarrow> bool) \<Rightarrow> stmt \<Rightarrow> conn \<Rightarrow> (error \<times> conn) + conn" where
  "execute F st c =
     (if F (clock c) st then Inl (OperationalError, c\<lparr>clock := Suc (clock c)\<rparr>)
      else apply_stmt st (c\<lparr>clock := Suc (clock c)\<rparr>))"

text \<open>\<open>conn.rollback()\<close> and \<open>conn.close()\<close>: the rows of the open transaction are discarded.\<close>

definition rollback :: "conn \<Rightarrow> conn" where
  "rollback c = c\<lparr>txn := durable c\<rparr>"

definition close :: "conn \<Rightarrow> server" where
  "close c = server.truncate c"

section \<open>Load\<close>

text \<open>A sequence of statements stops at the first that raises.\<close>

fun execute_all :: "(nat \<Rightarrow> stmt \<Rightarrow> bool) \<Rightarrow> stmt list \<Rightarrow> conn \<Rightarrow> (error \<times> conn) + conn" where
  "execute_all F [] c = Inr c"
| "execute_all F (st # sts) c =
     (case execute F st c of Inl e \<Rightarrow> Inl e | Inr c' \<Rightarrow> execute_all F sts c')"

definition truncate_tables :: "(nat \<Rightarrow> stmt \<Rightarrow> bool) \<Rightarrow> conn \<Rightarrow> (error \<times> conn) + conn" where
  "truncate_tables F c =
     execute_all F
       [SetForeignKeyChecks False, TruncateOrderItems, TruncateOrders, TruncateProducts,
        TruncateCustomers, SetForeignKeyChecks True, Commit] c"

text \<open>
  The loop over the cleaned customers. The dictionary \<open>cust_map\<close> is an association list
  with distinct keys; \<open>len(cust_map)\<close> is its length.
\<close>

fun insert_customers ::
  "(nat \<Rightarrow> stmt \<Rightarrow> bool) \<Rightarrow> customer_clean list \<Rightarrow> conn \<Rightarrow> (string \<times> nat) list \<Rightarrow>
   (error \<times> conn) + (conn \<times> (string \<times> nat) list)" where
  "insert_customers F [] c cust_map = Inr (c, cust_map)"
| "insert_customers F (r # rs) c cust_map =
     (case execute F (InsertCustomer (cc_first_name r) (cc_last_name r) (cc_email r) (cc_phone r)
                        (cc_city r) (cc_registration_date r)) c of
        Inl e \<Rightarrow> Inl e
      | Inr c' \<Rightarrow> insert_customers F rs c' (AList.update (cc_customer_id r) (lastrowid c') cust_map))"

fun insert_products ::
  "(nat \<Rightarrow> stmt \<Rightarrow> bool) \<Rightarrow> 'f lib \<Rightarrow> 'f product_clean list \<Rightarrow> conn \<Rightarrow> (string \<times> nat) list \<Rightarrow>
   (error \<times> conn) + (conn \<times> (string \<times> nat) list)" where
  "insert_products F L [] c prod_map = Inr (c, prod_map)"
| "insert_products F L (r # rs) c prod_map =
     (case to_decimal_2 L (Float (pc_price_num r)) of
        None \<Rightarrow> Inl (InvalidOperation, c)
      | Some price \<Rightarrow>
          (case execute F (InsertProduct (pc_product_name r) (pc_category r) price (pc_stock_num r)) c of
             Inl e \<Rightarrow> Inl e
           | Inr c' \<Rightarrow>
               insert_products F L rs c' (AList.update (pc_product_id r) (lastrowid c') prod_map)))"

text \<open>\<open>not pk\<close> for the result of \<open>dict.get\<close>: a missing key or the number 0.\<close>

definition falsy :: "nat option \<Rightarrow> bool" where
  "falsy pk = (case pk of None \<Rightarrow> True | Some n \<Rightarrow> n = 0)"

text \<open>\<open>normalize_spaces(r.get("status", "Pending")).title() or "Pending"\<close>\<close>

definition order_status :: "'f lib \<Rightarrow> string \<Rightarrow> string" where
  "order_status L st =
     (let t = title L (normalize_spaces (Some st)) in if t = [] then ''Pending'' else t)"

text \<open>
  The loop over the cleaned sales, with the two counters. The product
  \<open>unit_price * Decimal(qty)\<close> is exact unless it needs more than 28 digits, and then the
  \<open>quantize\<close> that follows raises, as \<open>quantize2\<close> does on the exact product.
\<close>

fun insert_orders ::
  "(nat \<Rightarrow> stmt \<Rightarrow> bool) \<Rightarrow> 'f lib \<Rightarrow> (string \<times> nat) list \<Rightarrow> (string \<times> nat) list \<Rightarrow>
   'f sale_clean list \<Rightarrow> conn \<Rightarrow> int \<times> int \<Rightarrow> (error \<times> conn) + (conn \<times> int \<times> int)" where
  "insert_orders F L cust_map prod_map [] c (orders_n, items_n) = Inr (c, orders_n, items_n)"
| "insert_orders F L cust_map prod_map (r # rs) c (orders_n, items_n) =
     (let cust_pk = map_of cust_map (sc_customer_id r);
          prod_pk = map_of prod_map (sc_product_id r)
      in
        if falsy cust_pk \<or> falsy prod_pk
        then insert_orders F L cust_map prod_map rs c (orders_n, items_n)
        else
          (case to_decimal_2 L (Float (sc_unit_price_num r)) of
             None \<Rightarrow> Inl (InvalidOperation, c)
           | Some unit_price \<Rightarrow>
               (case to_decimal_2 L (Dec (unit_price * of_int (sc_quantity_num r))) of
                  None \<Rightarrow> Inl (InvalidOperation, c)
                | Some subtotal \<Rightarrow>
                    (case execute F (InsertOrder (the cust_pk) (sc_transaction_date_parsed r)
                                       subtotal (order_status L (sc_status r))) c of
                       Inl e \<Rightarrow> Inl e
                     | Inr c1 \<Rightarrow>
                         (case execute F (InsertOrderItem (lastrowid c1) (the prod_pk)
                                            (sc_quantity_num r) unit_price subtotal) c1 of
                            Inl e \<Rightarrow> Inl e
                          | Inr c2 \<Rightarrow>
                              insert_orders F L cust_map prod_map rs c2
                                (orders_n + 1, items_n + 1))))))"

text \<open>The body of the \<open>try\<close> block of \<open>run_etl\<close>, from \<open>truncate_tables\<close> to the commit.\<close>

definition load ::
  "(nat \<Rightarrow> stmt \<Rightarrow> bool) \<Rightarrow> 'f lib \<Rightarrow> customer_clean list \<Rightarrow> 'f product_clean list \<Rightarrow>
   'f sale_clean list \<Rightarrow> report \<Rightarrow> conn \<Rightarrow> (error \<times> conn) + (conn \<times> report)" where
  "load F L cs ps ss rep c0 =
     (case truncate_tables F c0 of
        Inl e \<Rightarrow> Inl e
      | Inr c1 \<Rightarrow>
          (case insert_customers F cs c1 [] of
             Inl e \<Rightarrow> Inl e
           | Inr (c2, cust_map) \<Rightarrow>
               (case insert_products F L ps c2 [] of
                  Inl e \<Rightarrow> Inl e
                | Inr (c3, prod_map) \<Rightarrow>
                    (case insert_orders F L cust_map prod_map ss c3 (0, 0) of
                       Inl e \<Rightarrow> Inl e
                     | Inr (c4, orders_n, items_n) \<Rightarrow>
                         (case execute F Commit c4 of
                            Inl e \<Rightarrow> Inl e
                          | Inr c5 \<Rightarrow>
                              Inr (c5, rep\<lparr>customers_loaded := int (length cust_map),
                                           products_loaded := int (length prod_map),
                                           orders_loaded := orders_n,
                                           order_items_loaded := items_n\<rparr>))))))"

section \<open>The run\<close>

text \<open>
  What a run leaves behind: the server after \<open>conn.close()\<close>, the exception that reaches the
  caller if any, and the quality report written to the file if any.
\<close>

record outcome =
  server_after :: server
  raised :: "error option"
  report_file :: "report option"

definition run_etl ::
  "(nat \<Rightarrow> stmt \<Rightarrow> bool) \<Rightarrow> 'f lib \<Rightarrow> string option customer_cols list \<Rightarrow>
   string option product_cols list \<Rightarrow> string option sale_cols list \<Rightarrow> server \<Rightarrow> outcome" where
  "run_etl F L craw praw sraw srv =
     (case transform L craw praw sraw of
        Inl e \<Rightarrow> \<lparr>server_after = srv, raised = Some e, report_file = None\<rparr>
      | Inr (cs, ps, ss, rep) \<Rightarrow>
          (case load F L cs ps ss rep (get_conn srv) of
             Inl (e, c) \<Rightarrow>
               \<lparr>server_after = close (rollback c), raised = Some e, report_file = None\<rparr>
           | Inr (c, rep') \<Rightarrow>
               \<lparr>server_after = close c, raised = None, report_file = Some rep'\<rparr>))"

section \<open>What a committed load has stored\<close>

text \<open>
  The row of \<open>customers\<close> that the insert of a cleaned customer stores under the key \<open>pk\<close>,
  and the relations between a cleaned product and its row, and between a cleaned sales
  row, its order and its order item.
\<close>

definition customer_row_of :: "nat \<Rightarrow> customer_clean \<Rightarrow> customers_row" where
  "customer_row_of pk r =
     \<lparr>c_customer_id = pk, c_first_name = cc_first_name r, c_last_name = cc_last_name r,
      c_email = cc_email r, c_phone = cc_phone r, c_city = cc_city r,
      c_registration_date = cc_registration_date r\<rparr>"

definition product_loaded :: "'f lib \<Rightarrow> nat \<Rightarrow> 'f product_clean \<Rightarrow> products_row \<Rightarrow> bool" where
  "product_loaded L pk r row \<longleftrightarrow>
     p_product_id row = pk \<and> p_product_name row = pc_product_name r \<and>
     p_category row = pc_category r \<and>
     to_decimal_2 L (Float (pc_price_num r)) = Some (p_price row) \<and>
     p_stock_quantity row = pc_stock_num r"

definition sale_loaded ::
  "'f lib \<Rightarrow> (string \<times> nat) list \<Rightarrow> (string \<times> nat) list \<Rightarrow> nat \<Rightarrow> nat \<Rightarrow> 'f sale_clean \<Rightarrow>
   orders_row \<Rightarrow> order_items_row \<Rightarrow> bool" where
  "sale_loaded L cust_map prod_map ok ik r ord item \<longleftrightarrow>
     o_order_id ord = ok \<and> map_of cust_map (sc_customer_id r) = Some (o_customer_id ord) \<and>
     o_order_date ord = sc_transaction_date_parsed r \<and>
     o_status ord = order_status L (sc_status r) \<and> o_total_amount ord = i_subtotal item \<and>
     i_order_item_id item = ik \<and> i_order_id item = ok \<and>
     map_of prod_map (sc_product_id r) = Some (i_product_id item) \<and>
     i_quantity item = sc_quantity_num r \<and>
     to_decimal_2 L (Float (sc_unit_price_num r)) = Some (i_unit_price item) \<and>
     to_decimal_2 L (Dec (i_unit_price item * of_int (i_quantity item))) = Some (i_subtotal item)"

text \<open>The relation between a row of the priced products frame and its cleaned row.\<close>

definition product_cleaned :: "'f lib \<Rightarrow> string product_cols \<times> 'f \<Rightarrow> 'f product_clean \<Rightarrow> bool" where
  "product_cleaned L rv c \<longleftrightarrow>
     pc_product_id c = pr_product_id (fst rv) \<and> pc_product_name c = pr_product_name (fst rv) \<and>
     pc_category c = pr_category (fst rv) \<and> pc_price_num c = snd rv \<and>
     to_int_or_zero L (pr_stock_quantity (fst rv)) = Some (pc_stock_num c)"

section \<open>Example inputs\<close>

text \<open>Small frames, a server that holds a row of an earlier run, and a server that refuses nothing.\<close>

definition ex_customer :: "string \<Rightarrow> string \<Rightarrow> string option customer_cols" where
  "ex_customer cid em =
     \<lparr>cu_customer_id = Some cid, cu_first_name = Some ''A'', cu_last_name = Some ''B'',
      cu_email = Some em, cu_phone = None, cu_city = None, cu_registration_date = None\<rparr>"

definition ex_product :: "string \<Rightarrow> string option \<Rightarrow> string \<Rightarrow> string option product_cols" where
  "ex_product pid pri st =
     \<lparr>pr_product_id = Some pid, pr_product_name = Some ''N'', pr_category = Some ''fashion'',
      pr_price = pri, pr_stock_quantity = Some st\<rparr>"

definition ex_sale :: "string \<Rightarrow> string \<Rightarrow> string \<Rightarrow> string \<Rightarrow> string option sale_cols" where
  "ex_sale tid cid pid q =
     \<lparr>sa_transaction_id = Some tid, sa_customer_id = Some cid, sa_product_id = Some pid,
      sa_quantity = Some q, sa_unit_price = Some ''2.50'', sa_transaction_date = Some ''2024-03-05'',
      sa_status = None\<rparr>"

definition ex_server :: server where
  "ex_server =
     \<lparr>durable = \<lparr>customers = [\<lparr>c_customer_id = 1, c_first_name = ''Old'', c_last_name = ''Row'',
                     c_email = ''old@x.in'', c_phone = None, c_city = '''',
                     c_registration_date = None\<rparr>],
                  products = [], orders = [], order_items = []\<rparr>,
      next_customer_id = 2, next_product_id = 1, next_order_id = 1, next_order_item_id = 1\<rparr>"

definition no_faults :: "nat \<Rightarrow> stmt \<Rightarrow> bool" where
  "no_faults k st = False"

definition ex_customers :: "string option customer_cols list" where
  "ex_customers = [ex_customer ''C1'' ''a@x.in'']"

definition ex_products :: "string option product_cols list" where
  "ex_products = [ex_product ''P1'' (Some ''10'') ''1'']"

definition ex_sales :: "string option sale_cols list" where
  "ex_sales = [ex_sale ''T1'' ''C1'' ''P1'' ''2'', ex_sale ''T2'' ''C1'' ''P9'' ''1'']"

definition ex_run :: outcome where
  "ex_run = run_etl no_faults ref_lib ex_customers ex_products ex_sales ex_server"



section \<open>Properties of the string helpers\<close>

lemma isdigit_not_isspace: "isdigit c \<Longrightarrow> \<not> isspace c"
  by (auto simp: isdigit_def isspace_def)

lemma strip_Nil_iff: "strip s = [] \<longleftrightarrow> (\<forall>c \<in> set s. isspace c)"
proof -
  have "strip s = [] \<longleftrightarrow> dropWhile isspace (rev (dropWhile isspace s)) = []"
    by (simp add: strip_def)
  also have "\<dots> \<longleftrightarrow> (\<forall>c \<in> set (dropWhile isspace s). isspace c)"
    by (simp add: dropWhile_eq_Nil_conv)
  also have "\<dots> \<longleftrightarrow> (\<forall>c \<in> set s. isspace c)"
  proof
    assume a: "\<forall>c \<in> set (dropWhile isspace s). isspace c"
    show "\<forall>c \<in> set s. isspace c"
    proof (rule ccontr)
      assume "\<not> (\<forall>c \<in> set s. isspace c)"
      then have "dropWhile isspace s \<noteq> []"
        by (simp add: dropWhile_eq_Nil_conv)
      then have "\<not> isspace (hd (dropWhile isspace s))"
        by (rule hd_dropWhile)
      moreover have "hd (dropWhile isspace s) \<in> set (dropWhile isspace s)"
        using \<open>dropWhile isspace s \<noteq> []\<close> by simp
      ultimately show False using a by blast
    qed
  next
    assume "\<forall>c \<in> set s. isspace c"
    then show "\<forall>c \<in> set (dropWhile isspace s). isspace c"
      using set_dropWhileD by fastforce
  qed
  finally show ?thesis .
qed

lemma strip_Nil_no_digits: "strip s = [] \<Longrightarrow> filter isdigit s = []"
  by (auto simp: strip_Nil_iff filter_empty_conv dest: isdigit_not_isspace)

lemma last10_length: "10 \<le> length d \<Longrightarrow> length (last10 d) = 10"
  by (simp add: last10_def)

lemma normalize_phone_closed:
  "normalize_phone (Some s) =
     (if 10 \<le> length (filter isdigit s) then Some (''+91-'' @ last10 (filter isdigit s))
      else None)"
proof (cases "strip s = []")
  case True
  then show ?thesis
    by (simp add: normalize_phone_def strip_Nil_no_digits)
next
  case False
  then show ?thesis
    by (auto simp: normalize_phone_def Let_def last10_def)
qed

lemma normalizePhone_spec_closed:
  "normalizePhone_spec s =
     (if 10 \<le> length (filter isdigit s) then Some (''+91-'' @ last10 (filter isdigit s))
      else None)"
  by (auto simp: normalizePhone_spec_def Let_def last10_def)

section \<open>Properties of the date parser\<close>

lemma isdigit_not_delim: "isdigit x \<Longrightarrow> x \<noteq> CHR ''-'' \<and> x \<noteq> CHR ''/''"
  by (auto simp: isdigit_def)

text \<open>A string of the fast path splits at "-" into three parts, the first of 4 characters.\<close>

lemma matches_ymd_split:
  assumes "matches_ymd s"
  shows "delim_of s = Some CHR ''-'' \<and>
    split CHR ''-'' s = [take 4 s, take 2 (drop 5 s), drop 8 s]"
proof -
  from assms obtain a b c d e f g h i j where s: "s = [a, b, c, d, e, f, g, h, i, j]"
    by (auto simp: matches_ymd_def length_Suc_conv eval_nat_numeral)
  from assms s have dig: "isdigit a" "isdigit b" "isdigit c" "isdigit d" "isdigit f"
      "isdigit g" "isdigit i" "isdigit j"
    and e: "e = CHR ''-''" "h = CHR ''-''"
    by (auto simp: matches_ymd_def)
  show ?thesis
    using s e dig [THEN isdigit_not_delim] by (auto simp: delim_of_def)
qed

lemma parse_flex_date_three_parts:
  assumes "strip s0 \<noteq> []" and "delim_of (normalize_spaces (Some s0)) = Some dl"
    and "split dl (normalize_spaces (Some s0)) = [a, b, c]" and "length a \<noteq> 4"
  shows "parse_flex_date L (Some s0) =
     (case int_of_str L a of
        None \<Rightarrow> to_datetime L False (normalize_spaces (Some s0))
      | Some ai \<Rightarrow>
          (case int_of_str L b of
             None \<Rightarrow> to_datetime L False (normalize_spaces (Some s0))
           | Some bi \<Rightarrow> to_datetime L (dayfirst_rule ai bi) (normalize_spaces (Some s0))))"
proof -
  have "\<not> matches_ymd (normalize_spaces (Some s0))"
    using assms(2,3,4) matches_ymd_split [of "normalize_spaces (Some s0)"]
    by (auto simp: matches_ymd_def)
  then show ?thesis
    using assms by (simp add: parse_flex_date_def Let_def)
qed

lemma parse_flex_date_not_three:
  assumes "strip s0 \<noteq> []" and "delim_of (normalize_spaces (Some s0)) = Some dl"
    and "length (split dl (normalize_spaces (Some s0))) \<noteq> 3"
  shows "parse_flex_date L (Some s0) = to_datetime L False (normalize_spaces (Some s0))"
proof -
  have "\<not> matches_ymd (normalize_spaces (Some s0))"
    using assms(2,3) matches_ymd_split [of "normalize_spaces (Some s0)"] by auto
  then show ?thesis
    using assms by (simp add: parse_flex_date_def Let_def)
qed

lemma parse_flex_date_all_fail:
  assumes "to_datetime_ymd L (normalize_spaces so) = None"
    and "to_datetime L False (normalize_spaces so) = None"
    and "to_datetime L True (normalize_spaces so) = None"
  shows "parse_flex_date L so = None"
proof -
  have "to_datetime L b (normalize_spaces so) = None" for b
    using assms(2,3) by (cases b) simp_all
  with assms(1) show ?thesis
    by (cases so) (simp_all add: parse_flex_date_def Let_def split: option.splits)
qed

lemmas eval_string_defs =
  normalize_spaces_def strip_def isspace_def isdigit_def matches_ymd_def delim_of_def

section \<open>Properties of deduplication\<close>

lemma drop_dups_from_keys:
  "key ` set (drop_dups_from seen key xs) = key ` set xs - set seen"
  by (induction xs arbitrary: seen) auto

lemma drop_dups_from_distinct: "distinct (map key (drop_dups_from seen key xs))"
proof (induction xs arbitrary: seen)
  case Nil
  then show ?case by simp
next
  case (Cons x xs)
  have "key x \<notin> key ` set (drop_dups_from (key x # seen) key xs)"
    by (simp add: drop_dups_from_keys)
  with Cons show ?case by simp
qed



lemma drop_dups_from_length: "length (drop_dups_from seen key xs) \<le> length xs"
  by (induction xs arbitrary: seen) (auto simp: le_SucI)

lemma drop_duplicates_distinct: "distinct (map key (drop_duplicates key xs))"
  by (simp add: drop_duplicates_def drop_dups_from_distinct)

lemma drop_duplicates_length: "length (drop_duplicates key xs) \<le> length xs"
  by (simp add: drop_duplicates_def drop_dups_from_length)

lemma drop_duplicates_subset: "set (drop_duplicates key xs) \<subseteq> set xs"
proof -
  have "set (drop_dups_from seen key xs) \<subseteq> set xs" for seen
    by (induction xs arbitrary: seen) auto
  then show ?thesis by (simp add: drop_duplicates_def)
qed

section \<open>Properties of the statements and of the load loops\<close>

lemma execute_Inl_durable: "execute F st c = Inl (e, c') \<Longrightarrow> durable c' = durable c"
  by (cases st) (auto simp: execute_def apply_stmt_def split: if_splits)

lemma execute_InsertCustomer:
  "execute F (InsertCustomer a b em d e f) c = Inr c' \<Longrightarrow>
     c' = c\<lparr>txn := (txn c)\<lparr>customers := customers (txn c) @
                         [\<lparr>c_customer_id = next_customer_id c, c_first_name = a,
                           c_last_name = b, c_email = em, c_phone = d, c_city = e,
                           c_registration_date = f\<rparr>]\<rparr>,
                   lastrowid := next_customer_id c,
                   next_customer_id := Suc (next_customer_id c), clock := Suc (clock c)\<rparr>"
  by (auto simp: execute_def apply_stmt_def split: if_splits)

lemma insert_customers_Inl_durable:
  "insert_customers F rs c m = Inl (e, c') \<Longrightarrow> durable c' = durable c"
proof (induction rs arbitrary: c m)
  case Nil
  then show ?case by simp
next
  case (Cons r rs)
  show ?case
  proof (cases "execute F (InsertCustomer (cc_first_name r) (cc_last_name r) (cc_email r) (cc_phone r)
                        (cc_city r) (cc_registration_date r)) c")
    case (Inl a)
    with Cons.prems show ?thesis
      by (auto dest: execute_Inl_durable)
  next
    case (Inr c1)
    with Cons.prems have "insert_customers F rs c1 (AList.update (cc_customer_id r) (lastrowid c1) m) = Inl (e, c')"
      by simp
    from Cons.IH [OF this] execute_InsertCustomer [OF Inr] show ?thesis by simp
  qed
qed

lemma insert_customers_Inr:
  "insert_customers F rs c m = Inr (c', m') \<Longrightarrow>
     customers (txn c') = customers (txn c) @ map (\<lambda>(k, r). customer_row_of k r) (enumerate (next_customer_id c) rs) \<and>
     products (txn c') = products (txn c) \<and> orders (txn c') = orders (txn c) \<and>
     order_items (txn c') = order_items (txn c) \<and> durable c' = durable c \<and>
     next_customer_id c' = next_customer_id c + length rs \<and>
     next_product_id c' = next_product_id c \<and> next_order_id c' = next_order_id c \<and>
     next_order_item_id c' = next_order_item_id c \<and> fk_checks c' = fk_checks c"
proof (induction rs arbitrary: c m)
  case Nil
  then show ?case by simp
next
  case (Cons r rs)
  from Cons.prems obtain c1 where
    ex: "execute F (InsertCustomer (cc_first_name r) (cc_last_name r) (cc_email r) (cc_phone r)
                        (cc_city r) (cc_registration_date r)) c = Inr c1"
    and rest: "insert_customers F rs c1 (AList.update (cc_customer_id r) (lastrowid c1) m) = Inr (c', m')"
    by (auto split: sum.splits)
  from Cons.IH [OF rest] execute_InsertCustomer [OF ex] show ?case
    by (simp add: customer_row_of_def)
qed

lemma insert_customers_map_other:
  "insert_customers F rs c m = Inr (c', m') \<Longrightarrow> k \<notin> cc_customer_id ` set rs \<Longrightarrow>
     map_of m' k = map_of m k"
proof (induction rs arbitrary: c m)
  case Nil
  then show ?case by simp
next
  case (Cons r rs)
  from Cons.prems(1) obtain c1 where
    rest: "insert_customers F rs c1 (AList.update (cc_customer_id r) (lastrowid c1) m) = Inr (c', m')"
    by (auto split: sum.splits)
  from Cons.IH [OF rest] Cons.prems(2) show ?case
    by (simp add: update_conv')
qed

lemma insert_customers_map_hit:
  "insert_customers F rs c m = Inr (c', m') \<Longrightarrow> distinct (map cc_customer_id rs) \<Longrightarrow>
     i < length rs \<Longrightarrow> map_of m' (cc_customer_id (rs ! i)) = Some (next_customer_id c + i)"
proof (induction rs arbitrary: c m i)
  case Nil
  then show ?case by simp
next
  case (Cons r rs)
  from Cons.prems(1) obtain c1 where
    ex: "execute F (InsertCustomer (cc_first_name r) (cc_last_name r) (cc_email r) (cc_phone r)
                        (cc_city r) (cc_registration_date r)) c = Inr c1"
    and rest: "insert_customers F rs c1 (AList.update (cc_customer_id r) (lastrowid c1) m) = Inr (c', m')"
    by (auto split: sum.splits)
  note c1 = execute_InsertCustomer [OF ex]
  show ?case
  proof (cases i)
    case 0
    have "cc_customer_id r \<notin> cc_customer_id ` set rs"
      using Cons.prems(2) by auto
    from insert_customers_map_other [OF rest this] c1 0 show ?thesis
      by (simp add: update_conv')
  next
    case (Suc j)
    with Cons.prems have "distinct (map cc_customer_id rs)" "j < length rs" by auto
    from Cons.IH [OF rest this] c1 Suc show ?thesis by simp
  qed
qed

lemma insert_customers_keys:
  "insert_customers F rs c m = Inr (c', m') \<Longrightarrow> distinct (map fst m) \<Longrightarrow>
     fst ` set m' = fst ` set m \<union> cc_customer_id ` set rs \<and> distinct (map fst m')"
proof (induction rs arbitrary: c m)
  case Nil
  then show ?case by simp
next
  case (Cons r rs)
  from Cons.prems(1) obtain c1 where
    rest: "insert_customers F rs c1 (AList.update (cc_customer_id r) (lastrowid c1) m) = Inr (c', m')"
    by (auto split: sum.splits)
  have "distinct (map fst (AList.update (cc_customer_id r) (lastrowid c1) m))"
    using Cons.prems(2) by (simp add: distinct_update)
  from Cons.IH [OF rest this] show ?case
    by (auto simp: dom_update)
qed

lemma insert_customers_length:
  assumes "insert_customers F rs c [] = Inr (c', m')" and "distinct (map cc_customer_id rs)"
  shows "length m' = length rs"
proof -
  from insert_customers_keys [OF assms(1)] have k: "fst ` set m' = cc_customer_id ` set rs"
    and d: "distinct (map fst m')" by simp_all
  have "length m' = card (set (map fst m'))"
    using distinct_card [OF d] by simp
  also have "\<dots> = card (set (map cc_customer_id rs))"
    using k by simp
  also have "\<dots> = length rs"
    using distinct_card [OF assms(2)] by simp
  finally show ?thesis .
qed


lemma execute_InsertProduct:
  "execute F (InsertProduct a b pri st) c = Inr c' \<Longrightarrow>
     c' = c\<lparr>txn := (txn c)\<lparr>products := products (txn c) @
                       [\<lparr>p_product_id = next_product_id c, p_product_name = a,
                         p_category = b, p_price = pri, p_stock_quantity = st\<rparr>]\<rparr>,
                 lastrowid := next_product_id c,
                 next_product_id := Suc (next_product_id c), clock := Suc (clock c)\<rparr>"
  by (auto simp: execute_def apply_stmt_def split: if_splits)

lemma execute_InsertOrder:
  "execute F (InsertOrder cid od tot sta) c = Inr c' \<Longrightarrow>
     c' = c\<lparr>txn := (txn c)\<lparr>orders := orders (txn c) @
                         [\<lparr>o_order_id = next_order_id c, o_customer_id = cid, o_order_date = od,
                           o_total_amount = tot, o_status = sta\<rparr>]\<rparr>,
                   lastrowid := next_order_id c,
                   next_order_id := Suc (next_order_id c), clock := Suc (clock c)\<rparr>"
  by (auto simp: execute_def apply_stmt_def split: if_splits)

lemma execute_InsertOrderItem:
  "execute F (InsertOrderItem oid pid q up sub) c = Inr c' \<Longrightarrow>
     c' = c\<lparr>txn := (txn c)\<lparr>order_items := order_items (txn c) @
                         [\<lparr>i_order_item_id = next_order_item_id c, i_order_id = oid,
                           i_product_id = pid, i_quantity = q, i_unit_price = up,
                           i_subtotal = sub\<rparr>]\<rparr>,
                   lastrowid := next_order_item_id c,
                   next_order_item_id := Suc (next_order_item_id c), clock := Suc (clock c)\<rparr>"
  by (auto simp: execute_def apply_stmt_def split: if_splits)

lemma insert_products_Inl_durable:
  "insert_products F L rs c m = Inl (e, c') \<Longrightarrow> durable c' = durable c"
proof (induction rs arbitrary: c m)
  case Nil
  then show ?case by simp
next
  case (Cons r rs)
  show ?case
  proof (cases "to_decimal_2 L (Float (pc_price_num r))")
    case None
    with Cons.prems show ?thesis by simp
  next
    case (Some price)
    show ?thesis
    proof (cases "execute F (InsertProduct (pc_product_name r) (pc_category r) price (pc_stock_num r)) c")
      case (Inl a)
      with Some Cons.prems show ?thesis
        by (auto dest: execute_Inl_durable)
    next
      case (Inr c1)
      with Some Cons.prems
      have "insert_products F L rs c1 (AList.update (pc_product_id r) (lastrowid c1) m) = Inl (e, c')"
        by simp
      from Cons.IH [OF this] execute_InsertProduct [OF Inr] show ?thesis by simp
    qed
  qed
qed

lemma insert_products_step:
  assumes "insert_products F L (r # rs) c m = Inr (c', m')"
  obtains price c1 where "to_decimal_2 L (Float (pc_price_num r)) = Some price"
    and "execute F (InsertProduct (pc_product_name r) (pc_category r) price (pc_stock_num r)) c = Inr c1"
    and "insert_products F L rs c1 (AList.update (pc_product_id r) (lastrowid c1) m) = Inr (c', m')"
  using assms by (auto split: option.splits sum.splits)

lemma insert_products_Inr:
  "insert_products F L rs c m = Inr (c', m') \<Longrightarrow>
     (\<exists>rows. products (txn c') = products (txn c) @ rows \<and>
        list_all2 (\<lambda>(k, r) row. product_loaded L k r row) (enumerate (next_product_id c) rs) rows) \<and>
     customers (txn c') = customers (txn c) \<and> orders (txn c') = orders (txn c) \<and>
     order_items (txn c') = order_items (txn c) \<and> durable c' = durable c \<and>
     next_product_id c' = next_product_id c + length rs \<and>
     next_customer_id c' = next_customer_id c \<and> next_order_id c' = next_order_id c \<and>
     next_order_item_id c' = next_order_item_id c \<and> fk_checks c' = fk_checks c"
proof (induction rs arbitrary: c m)
  case Nil
  then show ?case by simp
next
  case (Cons r rs)
  from Cons.prems obtain price c1 where
    p: "to_decimal_2 L (Float (pc_price_num r)) = Some price"
    and ex: "execute F (InsertProduct (pc_product_name r) (pc_category r) price (pc_stock_num r)) c = Inr c1"
    and rest: "insert_products F L rs c1 (AList.update (pc_product_id r) (lastrowid c1) m) = Inr (c', m')"
    by (rule insert_products_step)
  note c1 = execute_InsertProduct [OF ex]
  from Cons.IH [OF rest] obtain rows where
    rows: "products (txn c') = products (txn c1) @ rows"
      "list_all2 (\<lambda>(k, r) row. product_loaded L k r row) (enumerate (next_product_id c1) rs) rows"
    and frame: "customers (txn c') = customers (txn c1)" "orders (txn c') = orders (txn c1)"
      "order_items (txn c') = order_items (txn c1)" "durable c' = durable c1"
      "next_product_id c' = next_product_id c1 + length rs"
      "next_customer_id c' = next_customer_id c1" "next_order_id c' = next_order_id c1"
      "next_order_item_id c' = next_order_item_id c1" "fk_checks c' = fk_checks c1"
    by auto
  let ?row = "\<lparr>p_product_id = next_product_id c, p_product_name = pc_product_name r,
     p_category = pc_category r, p_price = price, p_stock_quantity = pc_stock_num r\<rparr>"
  have "products (txn c') = products (txn c) @ (?row # rows)"
    using rows(1) c1 by simp
  moreover have "list_all2 (\<lambda>(k, r) row. product_loaded L k r row)
      (enumerate (next_product_id c) (r # rs)) (?row # rows)"
    using rows(2) c1 p by (simp add: product_loaded_def)
  ultimately have "\<exists>rows. products (txn c') = products (txn c) @ rows \<and>
        list_all2 (\<lambda>(k, r) row. product_loaded L k r row) (enumerate (next_product_id c) (r # rs)) rows"
    by blast
  then show ?case
    using frame c1 by simp
qed

lemma insert_products_map_other:
  "insert_products F L rs c m = Inr (c', m') \<Longrightarrow> k \<notin> pc_product_id ` set rs \<Longrightarrow>
     map_of m' k = map_of m k"
proof (induction rs arbitrary: c m)
  case Nil
  then show ?case by simp
next
  case (Cons r rs)
  from Cons.prems(1) obtain price c1 where
    p: "to_decimal_2 L (Float (pc_price_num r)) = Some price"
    and ex: "execute F (InsertProduct (pc_product_name r) (pc_category r) price (pc_stock_num r)) c = Inr c1"
    and rest: "insert_products F L rs c1 (AList.update (pc_product_id r) (lastrowid c1) m) = Inr (c', m')"
    by (rule insert_products_step)
  from Cons.IH [OF rest] Cons.prems(2) show ?case
    by (simp add: update_conv')
qed

lemma insert_products_map_hit:
  "insert_products F L rs c m = Inr (c', m') \<Longrightarrow> distinct (map pc_product_id rs) \<Longrightarrow>
     i < length rs \<Longrightarrow> map_of m' (pc_product_id (rs ! i)) = Some (next_product_id c + i)"
proof (induction rs arbitrary: c m i)
  case Nil
  then show ?case by simp
next
  case (Cons r rs)
  from Cons.prems(1) obtain price c1 where
    p: "to_decimal_2 L (Float (pc_price_num r)) = Some price"
    and ex: "execute F (InsertProduct (pc_product_name r) (pc_category r) price (pc_stock_num r)) c = Inr c1"
    and rest: "insert_products F L rs c1 (AList.update (pc_product_id r) (lastrowid c1) m) = Inr (c', m')"
    by (rule insert_products_step)
  note c1 = execute_InsertProduct [OF ex]
  show ?case
  proof (cases i)
    case 0
    have "pc_product_id r \<notin> pc_product_id ` set rs"
      using Cons.prems(2) by auto
    from insert_products_map_other [OF rest this] c1 0 show ?thesis
      by (simp add: update_conv')
  next
    case (Suc j)
    with Cons.prems have "distinct (map pc_product_id rs)" "j < length rs" by auto
    from Cons.IH [OF rest this] c1 Suc show ?thesis by simp
  qed
qed

lemma insert_products_keys:
  "insert_products F L rs c m = Inr (c', m') \<Longrightarrow> distinct (map fst m) \<Longrightarrow>
     fst ` set m' = fst ` set m \<union> pc_product_id ` set rs \<and> distinct (map fst m')"
proof (induction rs arbitrary: c m)
  case Nil
  then show ?case by simp
next
  case (Cons r rs)
  from Cons.prems(1) obtain price c1 where
    p: "to_decimal_2 L (Float (pc_price_num r)) = Some price"
    and ex: "execute F (InsertProduct (pc_product_name r) (pc_category r) price (pc_stock_num r)) c = Inr c1"
    and rest: "insert_products F L rs c1 (AList.update (pc_product_id r) (lastrowid c1) m) = Inr (c', m')"
    by (rule insert_products_step)
  have "distinct (map fst (AList.update (pc_product_id r) (lastrowid c1) m))"
    using Cons.prems(2) by (simp add: distinct_update)
  from Cons.IH [OF rest this] show ?case
    by (auto simp: dom_update)
qed

lemma insert_products_length:
  assumes "insert_products F L rs c [] = Inr (c', m')" and "distinct (map pc_product_id rs)"
  shows "length m' = length rs"
proof -
  from insert_products_keys [OF assms(1)] have k: "fst ` set m' = pc_product_id ` set rs"
    and d: "distinct (map fst m')" by simp_all
  have "length m' = card (set (map fst m'))"
    using distinct_card [OF d] by simp
  also have "\<dots> = card (set (map pc_product_id rs))"
    using k by simp
  also have "\<dots> = length rs"
    using distinct_card [OF assms(2)] by simp
  finally show ?thesis .
qed

lemma truncate_tables_Inr:
  "truncate_tables F c = Inr c1 \<Longrightarrow>
     durable c1 = empty_tables \<and> txn c1 = empty_tables \<and> next_customer_id c1 = 1 \<and>
     next_product_id c1 = 1 \<and> next_order_id c1 = 1 \<and> next_order_item_id c1 = 1 \<and> fk_checks c1"
  by (auto simp: truncate_tables_def execute_def apply_stmt_def empty_tables_def
      split: if_splits)

lemma truncate_tables_Inl:
  "truncate_tables F c = Inl (e, c') \<Longrightarrow> txn c = durable c \<Longrightarrow>
     (customers (durable c') = [] \<or> customers (durable c') = customers (durable c)) \<and>
     (products (durable c') = [] \<or> products (durable c') = products (durable c)) \<and>
     (orders (durable c') = [] \<or> orders (durable c') = orders (durable c)) \<and>
     (order_items (durable c') = [] \<or> order_items (durable c') = order_items (durable c))"
  by (auto simp: truncate_tables_def execute_def apply_stmt_def split: if_splits)


lemma not_falsy_Some: "\<not> falsy pk \<Longrightarrow> pk = Some (the pk) \<and> the pk \<noteq> 0"
  by (cases pk) (simp_all add: falsy_def)

lemma insert_orders_skip:
  "falsy (map_of cm (sc_customer_id r)) \<or> falsy (map_of pm (sc_product_id r)) \<Longrightarrow>
   insert_orders F L cm pm (r # rs) c (n1, n2) = insert_orders F L cm pm rs c (n1, n2)"
  by (simp add: Let_def)

lemma insert_orders_Inl_durable:
  "insert_orders F L cm pm rs c n = Inl (e, c') \<Longrightarrow> durable c' = durable c"
proof (induction rs arbitrary: c n)
  case Nil
  then show ?case by (cases n) simp
next
  case (Cons r rs)
  obtain n1 n2 where n: "n = (n1, n2)" by (cases n)
  show ?case
  proof (cases "falsy (map_of cm (sc_customer_id r)) \<or> falsy (map_of pm (sc_product_id r))")
    case True
    with Cons.prems n have "insert_orders F L cm pm rs c n = Inl (e, c')"
      by (simp add: Let_def)
    from Cons.IH [OF this] show ?thesis .
  next
    case False
    show ?thesis
    proof (cases "to_decimal_2 L (Float (sc_unit_price_num r))")
      case None
      with False Cons.prems n show ?thesis by (simp add: Let_def)
    next
      case (Some up)
      show ?thesis
      proof (cases "to_decimal_2 L (Dec (up * of_int (sc_quantity_num r)))")
        case None
        with False Some Cons.prems n show ?thesis by (simp add: Let_def)
      next
        case sub: (Some sub)
        show ?thesis
        proof (cases "execute F (InsertOrder (the (map_of cm (sc_customer_id r)))
            (sc_transaction_date_parsed r) sub (order_status L (sc_status r))) c")
          case (Inl a)
          with False Some sub Cons.prems n show ?thesis
            by (auto simp: Let_def dest: execute_Inl_durable)
        next
          case c1: (Inr c1)
          show ?thesis
          proof (cases "execute F (InsertOrderItem (lastrowid c1) (the (map_of pm (sc_product_id r)))
              (sc_quantity_num r) up sub) c1")
            case (Inl a)
            with False Some sub c1 Cons.prems n execute_InsertOrder [OF c1] show ?thesis
              by (auto simp: Let_def dest!: execute_Inl_durable)
          next
            case c2: (Inr c2)
            with False Some sub c1 Cons.prems n
            have "insert_orders F L cm pm rs c2 (n1 + 1, n2 + 1) = Inl (e, c')"
              by (simp add: Let_def)
            from Cons.IH [OF this] execute_InsertOrder [OF c1] execute_InsertOrderItem [OF c2]
            show ?thesis by simp
          qed
        qed
      qed
    qed
  qed
qed

lemma insert_orders_step:
  assumes "insert_orders F L cm pm (r # rs) c (n1, n2) = Inr (c', n1', n2')"
    and "\<not> falsy (map_of cm (sc_customer_id r))" and "\<not> falsy (map_of pm (sc_product_id r))"
  obtains up sub c1 c2 where "to_decimal_2 L (Float (sc_unit_price_num r)) = Some up"
    and "to_decimal_2 L (Dec (up * of_int (sc_quantity_num r))) = Some sub"
    and "execute F (InsertOrder (the (map_of cm (sc_customer_id r)))
            (sc_transaction_date_parsed r) sub (order_status L (sc_status r))) c = Inr c1"
    and "execute F (InsertOrderItem (lastrowid c1) (the (map_of pm (sc_product_id r)))
              (sc_quantity_num r) up sub) c1 = Inr c2"
    and "insert_orders F L cm pm rs c2 (n1 + 1, n2 + 1) = Inr (c', n1', n2')"
  using assms by (auto simp: Let_def split: option.splits sum.splits)

lemma insert_orders_Inr:
  "insert_orders F L cm pm rs c (n1, n2) = Inr (c', n1', n2') \<Longrightarrow>
   \<forall>r \<in> set rs. \<not> falsy (map_of cm (sc_customer_id r)) \<and> \<not> falsy (map_of pm (sc_product_id r)) \<Longrightarrow>
     (\<exists>os its. orders (txn c') = orders (txn c) @ os \<and>
        order_items (txn c') = order_items (txn c) @ its \<and>
        length os = length rs \<and> length its = length rs \<and>
        (\<forall>k < length rs. sale_loaded L cm pm (next_order_id c + k) (next_order_item_id c + k)
           (rs ! k) (os ! k) (its ! k))) \<and>
     customers (txn c') = customers (txn c) \<and> products (txn c') = products (txn c) \<and>
     durable c' = durable c \<and> n1' = n1 + int (length rs) \<and> n2' = n2 + int (length rs)"
proof (induction rs arbitrary: c n1 n2)
  case Nil
  then show ?case by simp
next
  case (Cons r rs)
  from Cons.prems(2) have nf: "\<not> falsy (map_of cm (sc_customer_id r))"
      "\<not> falsy (map_of pm (sc_product_id r))"
    and rest_ok: "\<forall>r \<in> set rs. \<not> falsy (map_of cm (sc_customer_id r)) \<and>
      \<not> falsy (map_of pm (sc_product_id r))"
    by simp_all
  from Cons.prems(1) nf obtain up sub c1 c2 where
    up: "to_decimal_2 L (Float (sc_unit_price_num r)) = Some up"
    and sub: "to_decimal_2 L (Dec (up * of_int (sc_quantity_num r))) = Some sub"
    and e1: "execute F (InsertOrder (the (map_of cm (sc_customer_id r)))
            (sc_transaction_date_parsed r) sub (order_status L (sc_status r))) c = Inr c1"
    and e2: "execute F (InsertOrderItem (lastrowid c1) (the (map_of pm (sc_product_id r)))
              (sc_quantity_num r) up sub) c1 = Inr c2"
    and rest: "insert_orders F L cm pm rs c2 (n1 + 1, n2 + 1) = Inr (c', n1', n2')"
    by (rule insert_orders_step)
  note c1 = execute_InsertOrder [OF e1]
  note c2 = execute_InsertOrderItem [OF e2]
  let ?o = "\<lparr>o_order_id = next_order_id c, o_customer_id = the (map_of cm (sc_customer_id r)),
     o_order_date = sc_transaction_date_parsed r, o_total_amount = sub,
     o_status = order_status L (sc_status r)\<rparr>"
  let ?i = "\<lparr>i_order_item_id = next_order_item_id c, i_order_id = next_order_id c,
     i_product_id = the (map_of pm (sc_product_id r)), i_quantity = sc_quantity_num r,
     i_unit_price = up, i_subtotal = sub\<rparr>"
  have txn2: "orders (txn c2) = orders (txn c) @ [?o]"
      "order_items (txn c2) = order_items (txn c) @ [?i]"
      "customers (txn c2) = customers (txn c)" "products (txn c2) = products (txn c)"
      "durable c2 = durable c" "next_order_id c2 = Suc (next_order_id c)"
      "next_order_item_id c2 = Suc (next_order_item_id c)"
    by (simp_all add: c1 c2)
  from Cons.IH [OF rest rest_ok] obtain os its where
    ih: "orders (txn c') = orders (txn c2) @ os" "order_items (txn c') = order_items (txn c2) @ its"
      "length os = length rs" "length its = length rs"
      "\<forall>k < length rs. sale_loaded L cm pm (next_order_id c2 + k) (next_order_item_id c2 + k)
           (rs ! k) (os ! k) (its ! k)"
    and frame: "customers (txn c') = customers (txn c2)" "products (txn c') = products (txn c2)"
      "durable c' = durable c2" "n1' = n1 + 1 + int (length rs)" "n2' = n2 + 1 + int (length rs)"
    by auto
  have first: "sale_loaded L cm pm (next_order_id c) (next_order_item_id c) r ?o ?i"
    using up sub not_falsy_Some [OF nf(1)] not_falsy_Some [OF nf(2)]
    by (simp add: sale_loaded_def)
  have all: "\<forall>k < length (r # rs). sale_loaded L cm pm (next_order_id c + k)
      (next_order_item_id c + k) ((r # rs) ! k) ((?o # os) ! k) ((?i # its) ! k)"
  proof (intro allI impI)
    fix k assume k: "k < length (r # rs)"
    show "sale_loaded L cm pm (next_order_id c + k) (next_order_item_id c + k) ((r # rs) ! k)
        ((?o # os) ! k) ((?i # its) ! k)"
    proof (cases k)
      case 0
      with first show ?thesis by simp
    next
      case (Suc j)
      with k ih(5) txn2(6,7) show ?thesis by simp
    qed
  qed
  have "orders (txn c') = orders (txn c) @ (?o # os) \<and>
      order_items (txn c') = order_items (txn c) @ (?i # its) \<and>
      length (?o # os) = length (r # rs) \<and> length (?i # its) = length (r # rs)"
    using ih(1-4) txn2(1,2) by simp
  with all have "\<exists>os its. orders (txn c') = orders (txn c) @ os \<and>
        order_items (txn c') = order_items (txn c) @ its \<and>
        length os = length (r # rs) \<and> length its = length (r # rs) \<and>
        (\<forall>k < length (r # rs). sale_loaded L cm pm (next_order_id c + k) (next_order_item_id c + k)
           ((r # rs) ! k) (os ! k) (its ! k))"
    by blast
  then show ?case
    using frame txn2(3,4,5) by simp
qed

section \<open>Properties of the transform stage and of the load\<close>

lemma those_map_Some: "those (map g xs) = Some ys \<Longrightarrow> list_all2 (\<lambda>x y. g x = Some y) xs ys"
proof (induction xs arbitrary: ys)
  case Nil
  then show ?case by simp
next
  case (Cons x xs)
  then show ?case
    by (auto split: option.splits)
qed

lemma length_map_filter: "length (List.map_filter f xs) = length (filter (\<lambda>x. f x \<noteq> None) xs)"
  by (induction xs) (auto simp: List.map_filter_simps split: option.splits)

lemma count_compl: "count P xs = int (length xs) - int (length (filter (\<lambda>x. \<not> P x) xs))"
  using sum_length_filter_compl [of P xs] by (simp add: count_def)

lemma map_fst_map_filter_Pair:
  "map fst (List.map_filter (\<lambda>r. map_option (Pair r) (f r)) xs) = filter (\<lambda>r. f r \<noteq> None) xs"
  by (induction xs) (auto simp: List.map_filter_simps split: option.splits)

lemma clean_customers_ids:
  "map cc_customer_id (clean_customers L craw) = map cu_customer_id (customers_dedup craw)"
  by (simp add: clean_customers_def clean_customer_def)

lemma clean_customers_distinct: "distinct (map cc_customer_id (clean_customers L craw))"
  by (simp add: clean_customers_ids customers_dedup_def drop_duplicates_distinct)

lemma products_named_ids:
  "map pr_product_id (products_named L praw) = map pr_product_id (products_dedup praw)"
  by (simp add: products_named_def)

lemma products_named_distinct: "distinct (map pr_product_id (products_named L praw))"
  by (simp add: products_named_ids products_dedup_def drop_duplicates_distinct)

lemma clean_products_rows:
  assumes "clean_products L praw = Some ps"
  shows "list_all2 (product_cleaned L) (products_priced L praw) ps"
proof -
  from those_map_Some [OF assms [unfolded clean_products_def]]
  show ?thesis
    by (rule list_all2_mono) (auto simp: product_cleaned_def)
qed

lemma clean_products_ids:
  assumes "clean_products L praw = Some ps"
  shows "map pc_product_id ps = map (pr_product_id \<circ> fst) (products_priced L praw)"
proof -
  from clean_products_rows [OF assms]
  have "list_all2 (\<lambda>rv c. (pr_product_id \<circ> fst) rv = pc_product_id c) (products_priced L praw) ps"
    by (rule list_all2_mono) (simp add: product_cleaned_def)
  then show ?thesis
    by (simp add: list_all2_conv_all_nth list_eq_iff_nth_eq)
qed

lemma clean_products_distinct:
  assumes "clean_products L praw = Some ps"
  shows "distinct (map pc_product_id ps)"
proof -
  have "map (pr_product_id \<circ> fst) (products_priced L praw) =
      map pr_product_id (filter (\<lambda>r. impute_price L (products_named L praw) r \<noteq> None)
        (products_named L praw))"
    using map_fst_map_filter_Pair [of "impute_price L (products_named L praw)" "products_named L praw"]
    by (simp add: products_priced_def flip: map_map)
  then show ?thesis
    using products_named_distinct [of L praw]
    by (simp add: clean_products_ids [OF assms] distinct_map_filter)
qed

lemma insert_orders_Inr_durable:
  "insert_orders F L cm pm rs c n = Inr (c', n') \<Longrightarrow> durable c' = durable c"
proof (induction rs arbitrary: c n)
  case Nil
  then show ?case by (cases n) simp
next
  case (Cons r rs)
  obtain n1 n2 where n: "n = (n1, n2)" by (cases n)
  obtain n1' n2' where n': "n' = (n1', n2')" by (cases n')
  show ?case
  proof (cases "falsy (map_of cm (sc_customer_id r)) \<or> falsy (map_of pm (sc_product_id r))")
    case True
    with Cons.prems n have "insert_orders F L cm pm rs c n = Inr (c', n')"
      by (simp add: Let_def)
    from Cons.IH [OF this] show ?thesis .
  next
    case False
    then have nf: "\<not> falsy (map_of cm (sc_customer_id r))" "\<not> falsy (map_of pm (sc_product_id r))"
      by simp_all
    have p: "insert_orders F L cm pm (r # rs) c (n1, n2) = Inr (c', n1', n2')"
      using Cons.prems n n' by simp
    from p nf obtain up sub c1 c2 where
      "to_decimal_2 L (Float (sc_unit_price_num r)) = Some up"
      and "to_decimal_2 L (Dec (up * of_int (sc_quantity_num r))) = Some sub"
      and e1: "execute F (InsertOrder (the (map_of cm (sc_customer_id r)))
            (sc_transaction_date_parsed r) sub (order_status L (sc_status r))) c = Inr c1"
      and e2: "execute F (InsertOrderItem (lastrowid c1) (the (map_of pm (sc_product_id r)))
              (sc_quantity_num r) up sub) c1 = Inr c2"
      and rest: "insert_orders F L cm pm rs c2 (n1 + 1, n2 + 1) = Inr (c', n1', n2')"
      by (rule insert_orders_step)
    from Cons.IH [OF rest [folded n']] execute_InsertOrder [OF e1] execute_InsertOrderItem [OF e2]
    show ?thesis by simp
  qed
qed

lemma execute_Commit: "execute F Commit c = Inr c' \<Longrightarrow> durable c' = txn c"
  by (auto simp: execute_def apply_stmt_def split: if_splits)

lemma load_Inl:
  assumes "load F L cs ps ss rep c0 = Inl (e, c')" and "txn c0 = durable c0"
  shows "(customers (durable c') = [] \<or> customers (durable c') = customers (durable c0)) \<and>
     (products (durable c') = [] \<or> products (durable c') = products (durable c0)) \<and>
     (orders (durable c') = [] \<or> orders (durable c') = orders (durable c0)) \<and>
     (order_items (durable c') = [] \<or> order_items (durable c') = order_items (durable c0)) \<and>
     (\<not> isl (truncate_tables F c0) \<longrightarrow> durable c' = empty_tables)"
proof (cases "truncate_tables F c0")
  case (Inl a)
  with assms(1) have "truncate_tables F c0 = Inl (e, c')"
    by (simp add: load_def)
  from truncate_tables_Inl [OF this assms(2)] Inl show ?thesis by simp
next
  case (Inr c1)
  note t = truncate_tables_Inr [OF Inr]
  have "durable c' = empty_tables"
  proof (cases "insert_customers F cs c1 []")
    case (Inl a)
    with assms(1) Inr have "insert_customers F cs c1 [] = Inl (e, c')"
      by (simp add: load_def)
    from insert_customers_Inl_durable [OF this] t show ?thesis by simp
  next
    case c2: (Inr x2)
    obtain c2 cm where x2: "x2 = (c2, cm)" by (cases x2)
    note i2 = insert_customers_Inr [OF c2 [unfolded x2]]
    show ?thesis
    proof (cases "insert_products F L ps c2 []")
      case (Inl a)
      with assms(1) Inr c2 x2 have "insert_products F L ps c2 [] = Inl (e, c')"
        by (simp add: load_def)
      from insert_products_Inl_durable [OF this] i2 t show ?thesis by simp
    next
      case c3: (Inr x3)
      obtain c3 pm where x3: "x3 = (c3, pm)" by (cases x3)
      note i3 = insert_products_Inr [OF c3 [unfolded x3]]
      show ?thesis
      proof (cases "insert_orders F L cm pm ss c3 (0, 0)")
        case (Inl a)
        with assms(1) Inr c2 x2 c3 x3 have "insert_orders F L cm pm ss c3 (0, 0) = Inl (e, c')"
          by (simp add: load_def)
        from insert_orders_Inl_durable [OF this] i3 i2 t show ?thesis by simp
      next
        case c4: (Inr x4)
        obtain c4 n1 n2 where x4: "x4 = (c4, n1, n2)" by (cases x4)
        from assms(1) Inr c2 x2 c3 x3 c4 x4 have "execute F Commit c4 = Inl (e, c')"
          by (simp add: load_def split: sum.splits)
        from execute_Inl_durable [OF this] have d: "durable c' = durable c4" .
        from insert_orders_Inr_durable [OF c4 [unfolded x4]] d i3 i2 t show ?thesis by simp
      qed
    qed
  qed
  with Inr show ?thesis by (simp add: empty_tables_def)
qed

section \<open>Properties of a committed load and of the rounding\<close>

lemma durable_close: "durable (close c) = durable c"
  by (simp add: close_def server.defs conn.defs)

lemma get_conn_fields: "txn (get_conn srv) = durable srv" "durable (get_conn srv) = durable srv"
  by (simp_all add: get_conn_def server.defs conn.defs)

lemma load_Inr:
  assumes "load F L cs ps ss rep c0 = Inr (c5, rep')"
  obtains c1 c2 cm c3 pm c4 n1 n2 where "truncate_tables F c0 = Inr c1"
    and "insert_customers F cs c1 [] = Inr (c2, cm)"
    and "insert_products F L ps c2 [] = Inr (c3, pm)"
    and "insert_orders F L cm pm ss c3 (0, 0) = Inr (c4, n1, n2)"
    and "execute F Commit c4 = Inr c5"
    and "rep' = rep\<lparr>customers_loaded := int (length cm), products_loaded := int (length pm),
           orders_loaded := n1, order_items_loaded := n2\<rparr>"
  using assms by (auto simp: load_def split: sum.splits)

text \<open>The state committed by a load whose natural keys are distinct and resolved.\<close>

lemma load_committed:
  assumes ld: "load F L cs ps ss rep c0 = Inr (c5, rep')"
    and dc: "distinct (map cc_customer_id cs)" and dp: "distinct (map pc_product_id ps)"
    and keys: "\<forall>r \<in> set ss. sc_customer_id r \<in> set (map cc_customer_id cs) \<and>
        sc_product_id r \<in> set (map pc_product_id ps)"
  shows "\<exists>cm pm.
     (\<forall>i < length cs. map_of cm (cc_customer_id (cs ! i)) = Some (Suc i)) \<and>
     (\<forall>i < length ps. map_of pm (pc_product_id (ps ! i)) = Some (Suc i)) \<and>
     customers (durable c5) = map (\<lambda>(k, r). customer_row_of k r) (enumerate 1 cs) \<and>
     list_all2 (\<lambda>(k, r) row. product_loaded L k r row) (enumerate 1 ps) (products (durable c5)) \<and>
     length (orders (durable c5)) = length ss \<and> length (order_items (durable c5)) = length ss \<and>
     (\<forall>k < length ss. sale_loaded L cm pm (Suc k) (Suc k) (ss ! k) (orders (durable c5) ! k)
        (order_items (durable c5) ! k)) \<and>
     rep' = rep\<lparr>customers_loaded := int (length cs), products_loaded := int (length ps),
           orders_loaded := int (length ss), order_items_loaded := int (length ss)\<rparr>"
proof -
  from ld obtain c1 c2 cm c3 pm c4 n1 n2 where
    t: "truncate_tables F c0 = Inr c1"
    and ic: "insert_customers F cs c1 [] = Inr (c2, cm)"
    and ip: "insert_products F L ps c2 [] = Inr (c3, pm)"
    and io: "insert_orders F L cm pm ss c3 (0, 0) = Inr (c4, n1, n2)"
    and cmt: "execute F Commit c4 = Inr c5"
    and rep': "rep' = rep\<lparr>customers_loaded := int (length cm), products_loaded := int (length pm),
           orders_loaded := n1, order_items_loaded := n2\<rparr>"
    by (rule load_Inr)
  note t1 = truncate_tables_Inr [OF t]
  note s2 = insert_customers_Inr [OF ic]
  note s3 = insert_products_Inr [OF ip]
  have cm_hit: "\<forall>i < length cs. map_of cm (cc_customer_id (cs ! i)) = Some (Suc i)"
    using insert_customers_map_hit [OF ic dc] t1 by simp
  have n3: "next_product_id c2 = 1"
    using s2 t1 by simp
  have pm_hit: "\<forall>i < length ps. map_of pm (pc_product_id (ps ! i)) = Some (Suc i)"
    using insert_products_map_hit [OF ip dp] n3 by simp
  have nf: "\<forall>r \<in> set ss. \<not> falsy (map_of cm (sc_customer_id r)) \<and>
      \<not> falsy (map_of pm (sc_product_id r))"
  proof
    fix r assume "r \<in> set ss"
    with keys have "sc_customer_id r \<in> set (map cc_customer_id cs)"
      "sc_product_id r \<in> set (map pc_product_id ps)" by auto
    then obtain i j where "i < length cs" "cc_customer_id (cs ! i) = sc_customer_id r"
      "j < length ps" "pc_product_id (ps ! j) = sc_product_id r"
      by (auto simp: in_set_conv_nth)
    with cm_hit pm_hit have "map_of cm (sc_customer_id r) = Some (Suc i)"
      "map_of pm (sc_product_id r) = Some (Suc j)" by auto
    then show "\<not> falsy (map_of cm (sc_customer_id r)) \<and> \<not> falsy (map_of pm (sc_product_id r))"
      by (simp add: falsy_def)
  qed
  from insert_orders_Inr [OF io nf] obtain os its where
    o: "orders (txn c4) = orders (txn c3) @ os" "order_items (txn c4) = order_items (txn c3) @ its"
      "length os = length ss" "length its = length ss"
      "\<forall>k < length ss. sale_loaded L cm pm (next_order_id c3 + k) (next_order_item_id c3 + k)
           (ss ! k) (os ! k) (its ! k)"
    and f4: "customers (txn c4) = customers (txn c3)" "products (txn c4) = products (txn c3)"
      "n1 = int (length ss)" "n2 = int (length ss)"
    by auto
  from s3 obtain rows where rows: "products (txn c3) = products (txn c2) @ rows"
    "list_all2 (\<lambda>(k, r) row. product_loaded L k r row) (enumerate (next_product_id c2) ps) rows"
    by auto
  have d5: "durable c5 = txn c4"
    using execute_Commit [OF cmt] .
  have e: "customers (txn c1) = []" "products (txn c1) = []" "orders (txn c1) = []"
    "order_items (txn c1) = []"
    using t1 by (simp_all add: empty_tables_def)
  have cust: "customers (durable c5) = map (\<lambda>(k, r). customer_row_of k r) (enumerate 1 cs)"
    using d5 f4 s3 s2 t1 e by simp
  have prod: "list_all2 (\<lambda>(k, r) row. product_loaded L k r row) (enumerate 1 ps)
      (products (durable c5))"
    using d5 f4 rows s2 n3 e by simp
  have ids: "next_order_id c3 = 1" "next_order_item_id c3 = 1"
    using s3 s2 t1 by simp_all
  have ord: "orders (durable c5) = os" "order_items (durable c5) = its"
    using d5 o(1,2) s3 s2 e by simp_all
  have sales: "\<forall>k < length ss. sale_loaded L cm pm (Suc k) (Suc k) (ss ! k)
      (orders (durable c5) ! k) (order_items (durable c5) ! k)"
    using o(5) ids ord by simp
  have lens: "length cm = length cs" "length pm = length ps"
    using insert_customers_length [OF ic dc] insert_products_length [OF ip dp] by simp_all
  have "rep' = rep\<lparr>customers_loaded := int (length cs), products_loaded := int (length ps),
           orders_loaded := int (length ss), order_items_loaded := int (length ss)\<rparr>"
    using rep' lens f4(3,4) by simp
  with cm_hit pm_hit cust prod ord o(3,4) sales show ?thesis
    by blast
qed

lemma clean_sales_keys:
  "\<forall>r \<in> set (clean_sales L cs ps sraw qs). sc_customer_id r \<in> set (map cc_customer_id cs) \<and>
        sc_product_id r \<in> set (map pc_product_id ps)"
  by (auto simp: clean_sales_def integrity_filter_def)

text \<open>A run that writes its report has gone through the transform stage and a committed load.\<close>

lemma run_etl_report:
  assumes "report_file (run_etl F L craw praw sraw srv) = Some rep'"
  obtains ps qs c5 where "clean_products L praw = Some ps" and "quantities L sraw = Some qs"
    and "load F L (clean_customers L craw) ps (clean_sales L (clean_customers L craw) ps sraw qs)
           (transform_report L craw praw sraw qs) (get_conn srv) = Inr (c5, rep')"
    and "durable (server_after (run_etl F L craw praw sraw srv)) = durable c5"
    and "raised (run_etl F L craw praw sraw srv) = None"
  using assms
  by (auto simp: run_etl_def transform_def durable_close split: option.splits sum.splits)

lemma run_etl_committed:
  assumes "report_file (run_etl F L craw praw sraw srv) = Some rep'"
    and "clean_products L praw = Some ps" and "quantities L sraw = Some qs"
    and "cs = clean_customers L craw" and "ss = clean_sales L cs ps sraw qs"
    and "T = durable (server_after (run_etl F L craw praw sraw srv))"
  shows "\<exists>cm pm.
     (\<forall>i < length cs. map_of cm (cc_customer_id (cs ! i)) = Some (Suc i)) \<and>
     (\<forall>i < length ps. map_of pm (pc_product_id (ps ! i)) = Some (Suc i)) \<and>
     customers T = map (\<lambda>(k, r). customer_row_of k r) (enumerate 1 cs) \<and>
     list_all2 (\<lambda>(k, r) row. product_loaded L k r row) (enumerate 1 ps) (products T) \<and>
     length (orders T) = length ss \<and> length (order_items T) = length ss \<and>
     (\<forall>k < length ss. sale_loaded L cm pm (Suc k) (Suc k) (ss ! k) (orders T ! k)
        (order_items T ! k)) \<and>
     rep' = (transform_report L craw praw sraw qs)\<lparr>customers_loaded := int (length cs),
           products_loaded := int (length ps),
           orders_loaded := int (length ss), order_items_loaded := int (length ss)\<rparr>"
proof -
  from assms(1) obtain ps' qs' c5 where
    a: "clean_products L praw = Some ps'" "quantities L sraw = Some qs'"
    and ld: "load F L (clean_customers L craw) ps'
           (clean_sales L (clean_customers L craw) ps' sraw qs')
           (transform_report L craw praw sraw qs') (get_conn srv) = Inr (c5, rep')"
    and d: "durable (server_after (run_etl F L craw praw sraw srv)) = durable c5"
    by (rule run_etl_report)
  from a assms(2,3) have eq: "ps' = ps" "qs' = qs" by simp_all
  from load_committed [OF ld [unfolded eq, folded assms(4), folded assms(5)]
      clean_customers_distinct [of L craw, folded assms(4)] clean_products_distinct [OF assms(2)]
      clean_sales_keys [of L cs ps sraw qs, folded assms(5)]]
  show ?thesis
    unfolding assms(6) d .
qed


lemma round_half_up_near:
  "\<bar>of_int (round_half_up x) - x\<bar> \<le> 1 / 2 \<and>
   (\<bar>of_int (round_half_up x) - x\<bar> = 1 / 2 \<longrightarrow> \<bar>x\<bar> < \<bar>of_int (round_half_up x)\<bar>)"
proof (cases "0 \<le> x")
  case True
  define n where "n = \<lfloor>x + 1 / 2\<rfloor>"
  have f: "of_int n \<le> x + 1 / 2" "x + 1 / 2 < of_int n + 1"
    unfolding n_def by linarith+
  have r: "round_half_up x = n"
    using True by (simp add: round_half_up_def n_def)
  show ?thesis
    unfolding r using f True by (auto simp: abs_if)
next
  case False
  define n where "n = \<lfloor>- x + 1 / 2\<rfloor>"
  have f: "of_int n \<le> - x + 1 / 2" "- x + 1 / 2 < of_int n + 1"
    unfolding n_def by linarith+
  have r: "round_half_up x = - n"
    using False by (simp add: round_half_up_def n_def)
  show ?thesis
    unfolding r using f False by (auto simp: abs_if)
qed

lemma quantize2_Some:
  "quantize2 d = Some q \<Longrightarrow> q = of_int (round_half_up (d * 100)) / 100"
  by (auto simp: quantize2_def Let_def split: if_splits)

lemma quantize2_near:
  assumes "quantize2 d = Some q"
  shows "\<bar>q - d\<bar> \<le> 1 / 200 \<and> (\<bar>q - d\<bar> = 1 / 200 \<longrightarrow> \<bar>d\<bar> < \<bar>q\<bar>)"
proof -
  let ?n = "round_half_up (d * 100)"
  have q: "q = of_int ?n / 100" using assms by (rule quantize2_Some)
  have e: "q - d = (of_int ?n - d * 100) / 100" "q = of_int ?n / 100" "d = (d * 100) / 100"
    using q by simp_all
  have a: "\<bar>q - d\<bar> = \<bar>of_int ?n - d * 100\<bar> / 100"
    by (simp add: e(1))
  have b: "\<bar>q\<bar> = \<bar>of_int ?n :: rat\<bar> / 100" "\<bar>d\<bar> = \<bar>d * 100\<bar> / 100"
    using q by simp_all
  from round_half_up_near [of "d * 100"] show ?thesis
    unfolding a b by auto
qed


lemma to_decimal_2_Float:
  "to_decimal_2 L (Float f) = Some p \<Longrightarrow> \<exists>d. decimal_str L f = Some d \<and> quantize2 d = Some p"
  by (auto simp: to_decimal_2_def split: option.splits)

section \<open>Properties of the stages and of the example inputs\<close>

lemma length_products_named: "length (products_named L praw) = length (products_dedup praw)"
  by (simp add: products_named_def)

lemma set_map_filter: "y \<in> set (List.map_filter f xs) \<longleftrightarrow> (\<exists>x \<in> set xs. f x = Some y)"
  by (induction xs) (auto split: option.splits)

lemma products_priced_set:
  "(r, v) \<in> set (products_priced L praw) \<longleftrightarrow>
     r \<in> set (products_named L praw) \<and> impute_price L (products_named L praw) r = Some v"
  by (auto simp: products_priced_def set_map_filter)


lemma list_all2_in_set_right:
  "list_all2 P xs ys \<Longrightarrow> y \<in> set ys \<Longrightarrow> \<exists>x \<in> set xs. P x y"
  by (induction rule: list_all2_induct) auto


lemma ex_run_facts:
  "report_file ex_run \<noteq> None" "clean_products ref_lib ex_products \<noteq> None"
  "quantities ref_lib ex_sales = Some [2, 1]"
  by code_simp+

lemma ex_run_report:
  "report_file (run_etl no_faults ref_lib ex_customers ex_products ex_sales ex_server) =
     Some (the (report_file ex_run))"
  using ex_run_facts(1) by (simp add: ex_run_def)

lemma ex_products_clean:
  "clean_products ref_lib ex_products = Some (the (clean_products ref_lib ex_products))"
  using ex_run_facts(2) by simp








section \<open>The claims\<close>

text \<open>
  C1, as stated: a failure during the unit of work leaves the four tables as they were
  before the run. It fails: \<open>truncate_tables\<close> commits the truncation before the first insert,
  so a run that fails on its second customer (a duplicate email) leaves the \<open>customers\<close>
  table empty, although it held a row before the run.
\<close>

theorem C1_truncation_persists_counterexample:
  "raised (run_etl no_faults ref_lib [ex_customer ''C1'' ''a@x.in'', ex_customer ''C2'' ''A@x.in'']
      ex_products ex_sales ex_server) = Some IntegrityError \<and>
   customers (durable ex_server) \<noteq> [] \<and>
   customers (durable (server_after (run_etl no_faults ref_lib
      [ex_customer ''C1'' ''a@x.in'', ex_customer ''C2'' ''A@x.in''] ex_products ex_sales ex_server))) = []"
  by code_simp

text \<open>
  C1, amended: when the unit of work fails (the transform stage has succeeded and an
  exception reaches the caller), the quality report is not written and no row inserted
  by the run persists: every table is either as before the run or empty. Once
  \<open>truncate_tables\<close> has returned, the truncation is committed: the four tables are left
  empty, not restored to their state before the run.
\<close>

theorem C1_failed_load:
  "clean_products L praw \<noteq> None \<and> quantities L sraw \<noteq> None \<and>
   raised (run_etl F L craw praw sraw srv) = Some e \<longrightarrow>
     report_file (run_etl F L craw praw sraw srv) = None \<and>
     (customers (durable (server_after (run_etl F L craw praw sraw srv))) = [] \<or>
      customers (durable (server_after (run_etl F L craw praw sraw srv))) = customers (durable srv)) \<and>
     (products (durable (server_after (run_etl F L craw praw sraw srv))) = [] \<or>
      products (durable (server_after (run_etl F L craw praw sraw srv))) = products (durable srv)) \<and>
     (orders (durable (server_after (run_etl F L craw praw sraw srv))) = [] \<or>
      orders (durable (server_after (run_etl F L craw praw sraw srv))) = orders (durable srv)) \<and>
     (order_items (durable (server_after (run_etl F L craw praw sraw srv))) = [] \<or>
      order_items (durable (server_after (run_etl F L craw praw sraw srv))) =
        order_items (durable srv)) \<and>
     (\<not> isl (truncate_tables F (get_conn srv)) \<longrightarrow>
        durable (server_after (run_etl F L craw praw sraw srv)) = empty_tables)"
proof
  assume a: "clean_products L praw \<noteq> None \<and> quantities L sraw \<noteq> None \<and>
   raised (run_etl F L craw praw sraw srv) = Some e"
  then obtain ps qs where ps: "clean_products L praw = Some ps" and qs: "quantities L sraw = Some qs"
    by auto
  let ?cs = "clean_customers L craw"
  let ?ld = "load F L ?cs ps (clean_sales L ?cs ps sraw qs) (transform_report L craw praw sraw qs)
      (get_conn srv)"
  have tr: "transform L craw praw sraw =
      Inr (?cs, ps, clean_sales L ?cs ps sraw qs, transform_report L craw praw sraw qs)"
    using ps qs by (simp add: transform_def)
  show "report_file (run_etl F L craw praw sraw srv) = None \<and>
     (customers (durable (server_after (run_etl F L craw praw sraw srv))) = [] \<or>
      customers (durable (server_after (run_etl F L craw praw sraw srv))) = customers (durable srv)) \<and>
     (products (durable (server_after (run_etl F L craw praw sraw srv))) = [] \<or>
      products (durable (server_after (run_etl F L craw praw sraw srv))) = products (durable srv)) \<and>
     (orders (durable (server_after (run_etl F L craw praw sraw srv))) = [] \<or>
      orders (durable (server_after (run_etl F L craw praw sraw srv))) = orders (durable srv)) \<and>
     (order_items (durable (server_after (run_etl F L craw praw sraw srv))) = [] \<or>
      order_items (durable (server_after (run_etl F L craw praw sraw srv))) =
        order_items (durable srv)) \<and>
     (\<not> isl (truncate_tables F (get_conn srv)) \<longrightarrow>
        durable (server_after (run_etl F L craw praw sraw srv)) = empty_tables)"
  proof (cases ?ld)
    case (Inl x)
    obtain e' c where x: "x = (e', c)" by (cases x)
    have out: "run_etl F L craw praw sraw srv =
        \<lparr>server_after = close (rollback c), raised = Some e', report_file = None\<rparr>"
      using tr Inl x by (simp add: run_etl_def)
    have d: "durable (server_after (run_etl F L craw praw sraw srv)) = durable c"
      by (simp add: out durable_close rollback_def)
    from load_Inl [OF Inl [unfolded x]] get_conn_fields [of srv] show ?thesis
      unfolding d by (simp add: out)
  next
    case (Inr y)
    obtain c rep' where "y = (c, rep')" by (cases y)
    with tr Inr have "raised (run_etl F L craw praw sraw srv) = None"
      by (simp add: run_etl_def)
    with a show ?thesis by simp
  qed
qed

theorem C1_failed_load_witness:
  "clean_products ref_lib ex_products \<noteq> None \<and> quantities ref_lib ex_sales \<noteq> None \<and>
   raised (run_etl no_faults ref_lib [ex_customer ''C1'' ''a@x.in'', ex_customer ''C2'' ''A@x.in'']
      ex_products ex_sales ex_server) = Some IntegrityError \<and>
   \<not> isl (truncate_tables no_faults (get_conn ex_server)) \<and>
   report_file (run_etl no_faults ref_lib [ex_customer ''C1'' ''a@x.in'', ex_customer ''C2'' ''A@x.in'']
      ex_products ex_sales ex_server) = None \<and>
   durable (server_after (run_etl no_faults ref_lib
      [ex_customer ''C1'' ''a@x.in'', ex_customer ''C2'' ''A@x.in''] ex_products ex_sales ex_server)) = empty_tables"
proof -
  have h: "clean_products ref_lib ex_products \<noteq> None \<and> quantities ref_lib ex_sales \<noteq> None \<and>
      raised (run_etl no_faults ref_lib [ex_customer ''C1'' ''a@x.in'', ex_customer ''C2'' ''A@x.in'']
        ex_products ex_sales ex_server) = Some IntegrityError"
    by code_simp
  have t: "\<not> isl (truncate_tables no_faults (get_conn ex_server))"
    by code_simp
  show ?thesis
    using h t C1_failed_load [of ref_lib ex_products ex_sales no_faults
        "[ex_customer ''C1'' ''a@x.in'', ex_customer ''C2'' ''A@x.in'']" ex_server IntegrityError]
    by blast
qed

text \<open>
  C3. For a string whose split at the identified separator has three parts, the first not
  of 4 characters, and whose two first parts are numeric, \<open>parse_flex_date\<close> parses with the
  layout fixed by the precedence: month-first (\<open>dayfirst=False\<close>) when the second part
  exceeds 12, else day-first (\<open>dayfirst=True\<close>) when the first part exceeds 12, else
  month-first. With a library that reads the three dates of the specification in the layout
  asked for, "2024-03-05" gives 2024-03-05, "15/01/2024" gives 2024-01-15 and "03-04-2024"
  gives 2024-03-04.
\<close>

theorem C3_parse_flex_date_layout:
  "(strip s0 \<noteq> [] \<and> delim_of (normalize_spaces (Some s0)) = Some dl \<and>
    split dl (normalize_spaces (Some s0)) = [a, b, c] \<and> length a \<noteq> 4 \<and>
    int_of_str L a = Some ai \<and> int_of_str L b = Some bi \<longrightarrow>
      parse_flex_date L (Some s0) =
        to_datetime L (if bi > 12 then False else if ai > 12 then True else False)
          (normalize_spaces (Some s0))) \<and>
   (to_datetime_ymd L ''2024-03-05'' = Some (Date 2024 3 5) \<longrightarrow>
      parse_flex_date L (Some ''2024-03-05'') = Some (Date 2024 3 5)) \<and>
   (int_of_str L ''15'' = Some 15 \<and> int_of_str L ''01'' = Some 1 \<and>
    to_datetime L True ''15/01/2024'' = Some (Date 2024 1 15) \<longrightarrow>
      parse_flex_date L (Some ''15/01/2024'') = Some (Date 2024 1 15)) \<and>
   (int_of_str L ''03'' = Some 3 \<and> int_of_str L ''04'' = Some 4 \<and>
    to_datetime L False ''03-04-2024'' = Some (Date 2024 3 4) \<longrightarrow>
      parse_flex_date L (Some ''03-04-2024'') = Some (Date 2024 3 4))"
proof (intro conjI impI)
  assume h: "strip s0 \<noteq> [] \<and> delim_of (normalize_spaces (Some s0)) = Some dl \<and>
    split dl (normalize_spaces (Some s0)) = [a, b, c] \<and> length a \<noteq> 4 \<and>
    int_of_str L a = Some ai \<and> int_of_str L b = Some bi"
  then have "parse_flex_date L (Some s0) =
      to_datetime L (dayfirst_rule ai bi) (normalize_spaces (Some s0))"
    using parse_flex_date_three_parts [of s0 dl a b c L] by simp
  then show "parse_flex_date L (Some s0) =
      to_datetime L (if bi > 12 then False else if ai > 12 then True else False)
        (normalize_spaces (Some s0))"
    by (simp add: dayfirst_rule_def)
next
  assume "to_datetime_ymd L ''2024-03-05'' = Some (Date 2024 3 5)"
  then show "parse_flex_date L (Some ''2024-03-05'') = Some (Date 2024 3 5)"
    by (simp add: parse_flex_date_def eval_string_defs)
next
  assume "int_of_str L ''15'' = Some 15 \<and> int_of_str L ''01'' = Some 1 \<and>
    to_datetime L True ''15/01/2024'' = Some (Date 2024 1 15)"
  then show "parse_flex_date L (Some ''15/01/2024'') = Some (Date 2024 1 15)"
    by (simp add: parse_flex_date_def eval_string_defs dayfirst_rule_def)
next
  assume "int_of_str L ''03'' = Some 3 \<and> int_of_str L ''04'' = Some 4 \<and>
    to_datetime L False ''03-04-2024'' = Some (Date 2024 3 4)"
  then show "parse_flex_date L (Some ''03-04-2024'') = Some (Date 2024 3 4)"
    by (simp add: parse_flex_date_def eval_string_defs dayfirst_rule_def)
qed

theorem C3_parse_flex_date_layout_witness:
  "strip ''01/15/2024'' \<noteq> [] \<and> delim_of (normalize_spaces (Some ''01/15/2024'')) = Some CHR ''/'' \<and>
   split CHR ''/'' (normalize_spaces (Some ''01/15/2024'')) = [''01'', ''15'', ''2024''] \<and>
   int_of_str ref_lib ''01'' = Some 1 \<and> int_of_str ref_lib ''15'' = Some 15 \<and>
   parse_flex_date ref_lib (Some ''01/15/2024'') = Some (Date 2024 1 15) \<and>
   to_datetime_ymd ref_lib ''2024-03-05'' = Some (Date 2024 3 5) \<and>
   parse_flex_date ref_lib (Some ''2024-03-05'') = Some (Date 2024 3 5) \<and>
   to_datetime ref_lib True ''15/01/2024'' = Some (Date 2024 1 15) \<and>
   parse_flex_date ref_lib (Some ''15/01/2024'') = Some (Date 2024 1 15) \<and>
   int_of_str ref_lib ''03'' = Some 3 \<and> int_of_str ref_lib ''04'' = Some 4 \<and>
   to_datetime ref_lib False ''03-04-2024'' = Some (Date 2024 3 4) \<and>
   parse_flex_date ref_lib (Some ''03-04-2024'') = Some (Date 2024 3 4)"
proof -
  have s: "strip ''01/15/2024'' \<noteq> [] \<and>
      delim_of (normalize_spaces (Some ''01/15/2024'')) = Some CHR ''/'' \<and>
      split CHR ''/'' (normalize_spaces (Some ''01/15/2024'')) = [''01'', ''15'', ''2024''] \<and>
      normalize_spaces (Some ''01/15/2024'') = ''01/15/2024''"
    by (simp add: eval_string_defs)
  have l: "int_of_str ref_lib ''01'' = Some 1 \<and> int_of_str ref_lib ''15'' = Some 15 \<and>
      int_of_str ref_lib ''03'' = Some 3 \<and> int_of_str ref_lib ''04'' = Some 4 \<and>
      to_datetime ref_lib False ''01/15/2024'' = Some (Date 2024 1 15) \<and>
      to_datetime_ymd ref_lib ''2024-03-05'' = Some (Date 2024 3 5) \<and>
      to_datetime ref_lib True ''15/01/2024'' = Some (Date 2024 1 15) \<and>
      to_datetime ref_lib False ''03-04-2024'' = Some (Date 2024 3 4)"
    by code_simp
  show ?thesis
    using s l
      C3_parse_flex_date_layout [of "''01/15/2024''" "CHR ''/''" "''01''" "''15''" "''2024''"
        ref_lib 1 15]
    by (simp add: delim_of_def)
qed

text \<open>
  C8, as stated: a string whose split at the separator has not three parts gives null. It
  fails for "2024-03": the split at "-" has two parts, the pipeline then tries the generic
  parse, and pandas reads the string as the first day of March 2024.
\<close>

theorem C8_two_parts_counterexample:
  "delim_of (normalize_spaces (Some ''2024-03'')) = Some CHR ''-'' \<and>
   length (split CHR ''-'' (normalize_spaces (Some ''2024-03''))) = 2 \<and>
   parse_flex_date ref_lib (Some ''2024-03'') = Some (Date 2024 3 1)"
  by code_simp

text \<open>
  C8, amended: a missing or blank input gives null; a string whose split at the identified
  separator has not three parts is handed to the generic parse, and the result is what
  that parse returns, null exactly when it fails; and whenever every parse of the library
  fails on the normalised string, the result is null.
\<close>

theorem C8_parse_flex_date_fallback:
  "parse_flex_date L None = None \<and>
   (strip s0 = [] \<longrightarrow> parse_flex_date L (Some s0) = None) \<and>
   (strip s0 \<noteq> [] \<and> delim_of (normalize_spaces (Some s0)) = Some dl \<and>
    length (split dl (normalize_spaces (Some s0))) \<noteq> 3 \<longrightarrow>
      parse_flex_date L (Some s0) = to_datetime L False (normalize_spaces (Some s0))) \<and>
   (to_datetime_ymd L (normalize_spaces so) = None \<and>
    to_datetime L False (normalize_spaces so) = None \<and>
    to_datetime L True (normalize_spaces so) = None \<longrightarrow> parse_flex_date L so = None)"
proof (intro conjI impI)
  show "parse_flex_date L None = None"
    by (simp add: parse_flex_date_def)
next
  assume "strip s0 = []"
  then show "parse_flex_date L (Some s0) = None"
    by (simp add: parse_flex_date_def)
next
  assume "strip s0 \<noteq> [] \<and> delim_of (normalize_spaces (Some s0)) = Some dl \<and>
    length (split dl (normalize_spaces (Some s0))) \<noteq> 3"
  then show "parse_flex_date L (Some s0) = to_datetime L False (normalize_spaces (Some s0))"
    using parse_flex_date_not_three [of s0 dl L] by simp
next
  assume "to_datetime_ymd L (normalize_spaces so) = None \<and>
    to_datetime L False (normalize_spaces so) = None \<and>
    to_datetime L True (normalize_spaces so) = None"
  then show "parse_flex_date L so = None"
    using parse_flex_date_all_fail [of L so] by simp
qed

theorem C8_parse_flex_date_fallback_witness:
  "strip ''  '' = [] \<and> parse_flex_date ref_lib (Some ''  '') = None \<and>
   strip ''a/b'' \<noteq> [] \<and> delim_of (normalize_spaces (Some ''a/b'')) = Some CHR ''/'' \<and>
   length (split CHR ''/'' (normalize_spaces (Some ''a/b''))) \<noteq> 3 \<and>
   to_datetime_ymd ref_lib (normalize_spaces (Some ''a/b'')) = None \<and>
   to_datetime ref_lib False (normalize_spaces (Some ''a/b'')) = None \<and>
   to_datetime ref_lib True (normalize_spaces (Some ''a/b'')) = None \<and>
   parse_flex_date ref_lib (Some ''a/b'') = None \<and>
   strip ''2024-03'' \<noteq> [] \<and> delim_of (normalize_spaces (Some ''2024-03'')) = Some CHR ''-'' \<and>
   length (split CHR ''-'' (normalize_spaces (Some ''2024-03''))) \<noteq> 3 \<and>
   to_datetime ref_lib False (normalize_spaces (Some ''2024-03'')) = Some (Date 2024 3 1) \<and>
   parse_flex_date ref_lib (Some ''2024-03'') =
     to_datetime ref_lib False (normalize_spaces (Some ''2024-03''))"
proof -
  have h: "strip ''  '' = [] \<and> strip ''a/b'' \<noteq> [] \<and>
      delim_of (normalize_spaces (Some ''a/b'')) = Some CHR ''/'' \<and>
      length (split CHR ''/'' (normalize_spaces (Some ''a/b''))) \<noteq> 3 \<and>
      to_datetime_ymd ref_lib (normalize_spaces (Some ''a/b'')) = None \<and>
      to_datetime ref_lib False (normalize_spaces (Some ''a/b'')) = None \<and>
      to_datetime ref_lib True (normalize_spaces (Some ''a/b'')) = None"
    by code_simp
  have g: "strip ''2024-03'' \<noteq> [] \<and>
      delim_of (normalize_spaces (Some ''2024-03'')) = Some CHR ''-'' \<and>
      length (split CHR ''-'' (normalize_spaces (Some ''2024-03''))) \<noteq> 3 \<and>
      to_datetime ref_lib False (normalize_spaces (Some ''2024-03'')) = Some (Date 2024 3 1)"
    by code_simp
  show ?thesis
    using h g C8_parse_flex_date_fallback [of ref_lib "''a/b''" "CHR ''/''" "Some ''a/b''"]
      C8_parse_flex_date_fallback [of ref_lib "''  ''"]
      C8_parse_flex_date_fallback [of ref_lib "''2024-03''" "CHR ''-''"]
    by blast
qed

text \<open>
  C4. For every input string, \<open>normalize_phone\<close> computes what the specification describes
  step by step (digits only; strip "91" of 12 digits; strip "0" of 11 digits; last 10 of more
  than 10; null unless 10 digits remain; "+91-" and the digits otherwise), and the four
  variants of one 10-digit number (bare, "+91-" prefixed, "0" prefixed, "91" prefixed) all
  give the same canonical string.
\<close>

theorem C4_normalize_phone_spec:
  "normalize_phone (Some s) = normalizePhone_spec s \<and>
   (length x = 10 \<and> list_all isdigit x \<longrightarrow>
      normalize_phone (Some x) = Some (''+91-'' @ x) \<and>
      normalize_phone (Some (''+91-'' @ x)) = Some (''+91-'' @ x) \<and>
      normalize_phone (Some (''0'' @ x)) = Some (''+91-'' @ x) \<and>
      normalize_phone (Some (''91'' @ x)) = Some (''+91-'' @ x))"
proof (intro conjI impI)
  show "normalize_phone (Some s) = normalizePhone_spec s"
    by (simp only: normalize_phone_closed normalizePhone_spec_closed)
next
  assume a: "length x = 10 \<and> list_all isdigit x"
  then have f: "filter isdigit x = x"
    by (simp add: list_all_iff)
  show "normalize_phone (Some x) = Some (''+91-'' @ x)"
    using a f by (simp add: normalize_phone_closed last10_def)
  show "normalize_phone (Some (''+91-'' @ x)) = Some (''+91-'' @ x)"
    using a f by (simp add: normalize_phone_closed last10_def isdigit_def)
  show "normalize_phone (Some (''0'' @ x)) = Some (''+91-'' @ x)"
    using a f by (simp add: normalize_phone_closed last10_def isdigit_def)
  show "normalize_phone (Some (''91'' @ x)) = Some (''+91-'' @ x)"
    using a f by (simp add: normalize_phone_closed last10_def isdigit_def)
qed

theorem C4_normalize_phone_spec_witness:
  "length ''9876543210'' = 10 \<and> list_all isdigit ''9876543210'' \<and>
   normalize_phone (Some ''9876543210'') = Some ''+91-9876543210'' \<and>
   normalize_phone (Some ''+91-9876543210'') = Some ''+91-9876543210'' \<and>
   normalize_phone (Some ''09876543210'') = Some ''+91-9876543210'' \<and>
   normalize_phone (Some ''919876543210'') = Some ''+91-9876543210'' \<and>
   normalize_phone (Some ''+91 98765-43210'') = normalizePhone_spec ''+91 98765-43210''"
proof -
  have h: "length ''9876543210'' = 10 \<and> list_all isdigit ''9876543210''"
    by (simp add: isdigit_def)
  show ?thesis
    using h C4_normalize_phone_spec [of "''+91 98765-43210''" "''9876543210''"] by simp
qed

text \<open>
  C9, as stated: every input that yields fewer or more than 10 digits gives null. It fails
  for an input of 13 digits, which is cut to its last 10 digits.
\<close>

theorem C9_more_than_10_digits_counterexample:
  "length (filter isdigit ''1234567890123'') > 10 \<and>
   normalize_phone (Some ''1234567890123'') = Some ''+91-4567890123''"
  by (simp add: normalize_phone_closed last10_def isdigit_def)

text \<open>
  C9, amended: an input (missing, or a string) that holds fewer than 10 digit characters gives
  null; a string that holds 10 digits or more is never rejected, it gives "+91-" followed by
  its last 10 digits.
\<close>

theorem C9_normalize_phone_null:
  "normalize_phone None = None \<and>
   (length (filter isdigit s) < 10 \<longrightarrow> normalize_phone (Some s) = None) \<and>
   (length (filter isdigit s) \<ge> 10 \<longrightarrow>
      normalize_phone (Some s) = Some (''+91-'' @ last10 (filter isdigit s)))"
  by (simp add: normalize_phone_closed) (simp add: normalize_phone_def)

theorem C9_normalize_phone_null_witness:
  "length (filter isdigit ''98765-4321'') < 10 \<and> normalize_phone (Some ''98765-4321'') = None \<and>
   length (filter isdigit ''0091-9876543210'') \<ge> 10 \<and>
   normalize_phone (Some ''0091-9876543210'') = Some ''+91-9876543210''"
  using C9_normalize_phone_null [of "''98765-4321''"]
    C9_normalize_phone_null [of "''0091-9876543210''"]
  by (simp add: isdigit_def last10_def)



text \<open>
  C2, as stated: for each entity the report's raw count is the loaded count plus the
  duplicates removed plus the drop counts of the report. It fails for sales: of two raw
  rows, one with quantity "0" and one that names a product absent from the cleaned
  products, none is loaded and none is counted, the report having no counter for either
  reason.
\<close>

theorem C2_sales_drops_uncounted_counterexample:
  "map_option
     (\<lambda>rep. (sales_raw rep,
        orders_loaded rep + sales_dupes_removed rep + sales_missing_customer_dropped rep +
        sales_missing_product_dropped rep + sales_invalid_date_dropped rep))
     (report_file (run_etl no_faults ref_lib [ex_customer ''C1'' ''a@x.in'']
        [ex_product ''P1'' (Some ''10'') ''1'']
        [ex_sale ''T1'' ''C1'' ''P1'' ''0'', ex_sale ''T2'' ''C1'' ''P9'' ''1''] ex_server)) =
   Some (2, 0)"
  by code_simp

text \<open>
  C2, amended: in the report that a run writes, the customers reconcile (raw = loaded +
  duplicates removed); for products and sales the raw count is the loaded count plus the
  duplicates removed plus the counted drops (missing customer, missing product, invalid
  date) plus the rows dropped without a counter: products of a category without any
  parsed price, sales of non-positive or unparsable quantity, sales of unparsable unit
  price, and sales excluded by the integrity filter. The loaded orders and order items
  are as many.
\<close>

theorem C2_report_reconciles:
  assumes "report_file (run_etl F L craw praw sraw srv) = Some rep"
    and "clean_products L praw = Some ps" and "quantities L sraw = Some qs"
  shows "customers_raw rep = customers_loaded rep + customers_dupes_removed rep \<and>
    products_raw rep = products_loaded rep + products_dupes_removed rep +
      (int (length (products_named L praw)) - int (length (products_priced L praw))) \<and>
    sales_raw rep = orders_loaded rep + sales_dupes_removed rep +
      sales_missing_customer_dropped rep + sales_missing_product_dropped rep +
      sales_invalid_date_dropped rep +
      (int (length (sales_with_product sraw)) - int (length (sales_positive sraw qs))) +
      (int (length (sales_positive sraw qs)) - int (length (sales_priced L sraw qs))) +
      (int (length (sales_dated L sraw qs)) -
       int (length (clean_sales L (clean_customers L craw) ps sraw qs))) \<and>
    orders_loaded rep = order_items_loaded rep"
proof -
  from run_etl_committed [OF assms refl refl refl]
  have rep: "rep = (transform_report L craw praw sraw qs)\<lparr>
      customers_loaded := int (length (clean_customers L craw)),
      products_loaded := int (length ps),
      orders_loaded := int (length (clean_sales L (clean_customers L craw) ps sraw qs)),
      order_items_loaded := int (length (clean_sales L (clean_customers L craw) ps sraw qs))\<rparr>"
    by blast
  have lc: "length (clean_customers L craw) = length (customers_dedup craw)"
    by (simp add: clean_customers_def)
  have lp: "length ps = length (products_priced L praw)"
    using clean_products_rows [OF assms(2)] by (simp add: list_all2_lengthD)
  have mc: "count (\<lambda>r. sa_customer_id r = []) (sales_dedup sraw) =
      int (length (sales_dedup sraw)) - int (length (sales_with_customer sraw))"
    by (simp add: count_compl sales_with_customer_def)
  have mp: "count (\<lambda>r. sa_product_id r = []) (sales_with_customer sraw) =
      int (length (sales_with_customer sraw)) - int (length (sales_with_product sraw))"
    by (simp add: count_compl sales_with_product_def)
  have md: "count (\<lambda>(r, q, u). parse_flex_date L (Some (sa_transaction_date r)) = None)
        (sales_priced L sraw qs) =
      int (length (sales_priced L sraw qs)) - int (length (sales_dated L sraw qs))"
    by (simp add: count_compl sales_dated_def length_map_filter split_def)
  show ?thesis
    unfolding rep
    by (simp add: transform_report_def lc lp mc mp md length_products_named)
qed

theorem C2_report_reconciles_witness:
  "report_file ex_run \<noteq> None \<and> clean_products ref_lib ex_products \<noteq> None \<and>
   quantities ref_lib ex_sales = Some [2, 1] \<and>
   sales_raw (the (report_file ex_run)) = 2 \<and> orders_loaded (the (report_file ex_run)) = 1 \<and>
   int (length (sales_dated ref_lib ex_sales [2, 1])) -
     int (length (clean_sales ref_lib (clean_customers ref_lib ex_customers) (the (clean_products ref_lib ex_products)) ex_sales [2, 1])) = 1 \<and>
   customers_raw (the (report_file ex_run)) = customers_loaded (the (report_file ex_run)) + customers_dupes_removed (the (report_file ex_run)) \<and>
    products_raw (the (report_file ex_run)) = products_loaded (the (report_file ex_run)) + products_dupes_removed (the (report_file ex_run)) +
      (int (length (products_named ref_lib ex_products)) - int (length (products_priced ref_lib ex_products))) \<and>
    sales_raw (the (report_file ex_run)) = orders_loaded (the (report_file ex_run)) + sales_dupes_removed (the (report_file ex_run)) +
      sales_missing_customer_dropped (the (report_file ex_run)) + sales_missing_product_dropped (the (report_file ex_run)) +
      sales_invalid_date_dropped (the (report_file ex_run)) +
      (int (length (sales_with_product ex_sales)) - int (length (sales_positive ex_sales [2, 1]))) +
      (int (length (sales_positive ex_sales [2, 1])) - int (length (sales_priced ref_lib ex_sales [2, 1]))) +
      (int (length (sales_dated ref_lib ex_sales [2, 1])) -
       int (length (clean_sales ref_lib (clean_customers ref_lib ex_customers) (the (clean_products ref_lib ex_products)) ex_sales [2, 1]))) \<and>
    orders_loaded (the (report_file ex_run)) = order_items_loaded (the (report_file ex_run))"
proof -
  have v: "sales_raw (the (report_file ex_run)) = 2 \<and> orders_loaded (the (report_file ex_run)) = 1 \<and>
      int (length (sales_dated ref_lib ex_sales [2, 1])) - int (length (clean_sales ref_lib (clean_customers ref_lib ex_customers) (the (clean_products ref_lib ex_products)) ex_sales [2, 1])) = 1"
    by code_simp
  note c = C2_report_reconciles [OF ex_run_report ex_products_clean ex_run_facts(3)]
  show ?thesis
    using ex_run_facts v c by blast
qed



text \<open>
  C6, as stated: every loaded product has a strictly positive price and a non-negative
  stock. It fails: the pipeline never compares a price or a stock with zero, and a product
  with price "-5" and stock "-3" is loaded with the price -5.00 and the stock -3.
\<close>

theorem C6_negative_price_and_stock_counterexample:
  "map (\<lambda>row. (p_price row, p_stock_quantity row))
     (products (durable (server_after (run_etl no_faults ref_lib ex_customers
        [ex_product ''P1'' (Some ''-5'') ''-3''] ex_sales ex_server)))) = [(- 5, - 3)]"
  by code_simp

text \<open>
  C6, amended: every product of a committed load is stored with the decimal value of its
  cleaned price rounded to two fractional digits, ties away from zero (the result is a
  whole number of hundredths, at most half a hundredth from the value, and farther from
  zero on a tie), whatever its sign; its stock is the integer that \<open>astype(int)\<close> gives for
  the parsed stock text, whatever its sign, and zero when the stock text is missing or
  unparsable.
\<close>

theorem C6_loaded_product_price_stock:
  assumes "report_file (run_etl F L craw praw sraw srv) = Some rep"
    and "clean_products L praw = Some ps"
  shows "length (products (durable (server_after (run_etl F L craw praw sraw srv)))) = length ps \<and>
    (\<forall>j < length ps.
       (\<exists>d. decimal_str L (pc_price_num (ps ! j)) = Some d \<and>
          p_price (products (durable (server_after (run_etl F L craw praw sraw srv))) ! j) =
            of_int (round_half_up (d * 100)) / 100 \<and>
          \<bar>p_price (products (durable (server_after (run_etl F L craw praw sraw srv))) ! j) - d\<bar>
            \<le> 1 / 200 \<and>
          (\<bar>p_price (products (durable (server_after (run_etl F L craw praw sraw srv))) ! j) - d\<bar>
             = 1 / 200 \<longrightarrow>
           \<bar>d\<bar> < \<bar>p_price (products (durable (server_after (run_etl F L craw praw sraw srv))) ! j)\<bar>)) \<and>
       p_stock_quantity (products (durable (server_after (run_etl F L craw praw sraw srv))) ! j) =
         pc_stock_num (ps ! j) \<and>
       (\<exists>r \<in> set (products_named L praw). pr_product_id r = pc_product_id (ps ! j) \<and>
          to_int_or_zero L (pr_stock_quantity r) = Some (pc_stock_num (ps ! j)) \<and>
          (to_numeric L (pr_stock_quantity r) = None \<longrightarrow> pc_stock_num (ps ! j) = 0)))"
proof -
  let ?T = "durable (server_after (run_etl F L craw praw sraw srv))"
  from assms(1) obtain ps' qs c5 where "clean_products L praw = Some ps'"
    and qs: "quantities L sraw = Some qs"
    by (rule run_etl_report)
  from run_etl_committed [OF assms(1,2) qs refl refl refl]
  have la: "list_all2 (\<lambda>(k, r) row. product_loaded L k r row) (enumerate 1 ps) (products ?T)"
    by blast
  then have len: "length (products ?T) = length ps"
    by (simp add: list_all2_lengthD [symmetric])
  note rows = clean_products_rows [OF assms(2)]
  have "\<forall>j < length ps.
       (\<exists>d. decimal_str L (pc_price_num (ps ! j)) = Some d \<and>
          p_price (products ?T ! j) = of_int (round_half_up (d * 100)) / 100 \<and>
          \<bar>p_price (products ?T ! j) - d\<bar> \<le> 1 / 200 \<and>
          (\<bar>p_price (products ?T ! j) - d\<bar> = 1 / 200 \<longrightarrow> \<bar>d\<bar> < \<bar>p_price (products ?T ! j)\<bar>)) \<and>
       p_stock_quantity (products ?T ! j) = pc_stock_num (ps ! j) \<and>
       (\<exists>r \<in> set (products_named L praw). pr_product_id r = pc_product_id (ps ! j) \<and>
          to_int_or_zero L (pr_stock_quantity r) = Some (pc_stock_num (ps ! j)) \<and>
          (to_numeric L (pr_stock_quantity r) = None \<longrightarrow> pc_stock_num (ps ! j) = 0))"
  proof (intro allI impI)
    fix j assume j: "j < length ps"
    from la j have pl: "product_loaded L (Suc j) (ps ! j) (products ?T ! j)"
      by (auto simp: list_all2_conv_all_nth nth_enumerate_eq)
    then have "to_decimal_2 L (Float (pc_price_num (ps ! j))) = Some (p_price (products ?T ! j))"
      and st: "p_stock_quantity (products ?T ! j) = pc_stock_num (ps ! j)"
      by (simp_all add: product_loaded_def)
    from to_decimal_2_Float [OF this(1)] obtain d where
      d: "decimal_str L (pc_price_num (ps ! j)) = Some d"
        "quantize2 d = Some (p_price (products ?T ! j))"
      by blast
    have price: "\<exists>d. decimal_str L (pc_price_num (ps ! j)) = Some d \<and>
          p_price (products ?T ! j) = of_int (round_half_up (d * 100)) / 100 \<and>
          \<bar>p_price (products ?T ! j) - d\<bar> \<le> 1 / 200 \<and>
          (\<bar>p_price (products ?T ! j) - d\<bar> = 1 / 200 \<longrightarrow> \<bar>d\<bar> < \<bar>p_price (products ?T ! j)\<bar>)"
      using d(1) quantize2_Some [OF d(2)] quantize2_near [OF d(2)] by blast
    from j have "ps ! j \<in> set ps" by simp
    from list_all2_in_set_right [OF rows this] obtain r v where
      rv: "(r, v) \<in> set (products_priced L praw)" "product_cleaned L (r, v) (ps ! j)"
      by auto
    then have r: "r \<in> set (products_named L praw)" "pr_product_id r = pc_product_id (ps ! j)"
      "to_int_or_zero L (pr_stock_quantity r) = Some (pc_stock_num (ps ! j))"
      by (simp_all add: products_priced_set product_cleaned_def)
    then have "to_numeric L (pr_stock_quantity r) = None \<longrightarrow> pc_stock_num (ps ! j) = 0"
      by (auto simp: to_int_or_zero_def)
    with r have "\<exists>r \<in> set (products_named L praw). pr_product_id r = pc_product_id (ps ! j) \<and>
          to_int_or_zero L (pr_stock_quantity r) = Some (pc_stock_num (ps ! j)) \<and>
          (to_numeric L (pr_stock_quantity r) = None \<longrightarrow> pc_stock_num (ps ! j) = 0)"
      by (intro bexI [of _ r]) simp_all
    with price st show "(\<exists>d. decimal_str L (pc_price_num (ps ! j)) = Some d \<and>
          p_price (products ?T ! j) = of_int (round_half_up (d * 100)) / 100 \<and>
          \<bar>p_price (products ?T ! j) - d\<bar> \<le> 1 / 200 \<and>
          (\<bar>p_price (products ?T ! j) - d\<bar> = 1 / 200 \<longrightarrow> \<bar>d\<bar> < \<bar>p_price (products ?T ! j)\<bar>)) \<and>
       p_stock_quantity (products ?T ! j) = pc_stock_num (ps ! j) \<and>
       (\<exists>r \<in> set (products_named L praw). pr_product_id r = pc_product_id (ps ! j) \<and>
          to_int_or_zero L (pr_stock_quantity r) = Some (pc_stock_num (ps ! j)) \<and>
          (to_numeric L (pr_stock_quantity r) = None \<longrightarrow> pc_stock_num (ps ! j) = 0))"
      by blast
  qed
  with len show ?thesis by blast
qed

theorem C6_loaded_product_price_stock_witness:
  "report_file ex_run \<noteq> None \<and> clean_products ref_lib ex_products \<noteq> None \<and>
   length (products (durable (server_after ex_run))) = length (the (clean_products ref_lib ex_products)) \<and> 0 < length (the (clean_products ref_lib ex_products)) \<and>
   p_price (products (durable (server_after ex_run)) ! 0) = 10 \<and> p_stock_quantity (products (durable (server_after ex_run)) ! 0) = 1 \<and>
   (\<exists>d. decimal_str ref_lib (pc_price_num ((the (clean_products ref_lib ex_products)) ! 0)) = Some d \<and>
          p_price (products (durable (server_after ex_run)) ! 0) = of_int (round_half_up (d * 100)) / 100 \<and>
          \<bar>p_price (products (durable (server_after ex_run)) ! 0) - d\<bar> \<le> 1 / 200 \<and>
          (\<bar>p_price (products (durable (server_after ex_run)) ! 0) - d\<bar> = 1 / 200 \<longrightarrow>
           \<bar>d\<bar> < \<bar>p_price (products (durable (server_after ex_run)) ! 0)\<bar>)) \<and>
       p_stock_quantity (products (durable (server_after ex_run)) ! 0) = pc_stock_num ((the (clean_products ref_lib ex_products)) ! 0) \<and>
       (\<exists>r \<in> set (products_named ref_lib ex_products). pr_product_id r = pc_product_id ((the (clean_products ref_lib ex_products)) ! 0) \<and>
          to_int_or_zero ref_lib (pr_stock_quantity r) = Some (pc_stock_num ((the (clean_products ref_lib ex_products)) ! 0)) \<and>
          (to_numeric ref_lib (pr_stock_quantity r) = None \<longrightarrow> pc_stock_num ((the (clean_products ref_lib ex_products)) ! 0) = 0))"
proof -
  have v: "0 < length (the (clean_products ref_lib ex_products)) \<and> p_price (products (durable (server_after ex_run)) ! 0) = 10 \<and> p_stock_quantity (products (durable (server_after ex_run)) ! 0) = 1"
    by code_simp
  note c = C6_loaded_product_price_stock [OF ex_run_report ex_products_clean, folded ex_run_def]
  from c v have b: "(\<exists>d. decimal_str ref_lib (pc_price_num ((the (clean_products ref_lib ex_products)) ! 0)) = Some d \<and>
          p_price (products (durable (server_after ex_run)) ! 0) = of_int (round_half_up (d * 100)) / 100 \<and>
          \<bar>p_price (products (durable (server_after ex_run)) ! 0) - d\<bar> \<le> 1 / 200 \<and>
          (\<bar>p_price (products (durable (server_after ex_run)) ! 0) - d\<bar> = 1 / 200 \<longrightarrow>
           \<bar>d\<bar> < \<bar>p_price (products (durable (server_after ex_run)) ! 0)\<bar>)) \<and>
       p_stock_quantity (products (durable (server_after ex_run)) ! 0) = pc_stock_num ((the (clean_products ref_lib ex_products)) ! 0) \<and>
       (\<exists>r \<in> set (products_named ref_lib ex_products). pr_product_id r = pc_product_id ((the (clean_products ref_lib ex_products)) ! 0) \<and>
          to_int_or_zero ref_lib (pr_stock_quantity r) = Some (pc_stock_num ((the (clean_products ref_lib ex_products)) ! 0)) \<and>
          (to_numeric ref_lib (pr_stock_quantity r) = None \<longrightarrow> pc_stock_num ((the (clean_products ref_lib ex_products)) ! 0) = 0))"
    by blast
  show ?thesis
    using ex_run_facts v c b by blast
qed



end
